theory Spec2Isabelle
  imports Main "HOL-Library.Sublist"
begin

section \<open>discover\_jenkins/runner.py: data model\<close>

text \<open>
  The runner module of django-discover-jenkins loads task plugins named in the settings,
  instantiates them and forwards the test runner's lifecycle to them. Everything the
  module calls but does not define (the import system, the task classes, the wrapped
  Django runner, \<^verbatim>\<open>unittest.TextTestRunner\<close>, \<^verbatim>\<open>XMLTestResult.dump_xml\<close>) is a
  parameter of the model, collected in the record \<open>env\<close>. Every call that leaves the
  module is written to a trace of events, so that the order of calls can be stated.
\<close>

subsection \<open>Python values\<close>

text \<open>Exceptions. \<open>Raised\<close> stands for any exception class the module never names.\<close>

datatype exn =
    ImproperlyConfigured string
  | ImportError string
  | AttributeError string
  | Raised string

text \<open>Keyword arguments (\<^verbatim>\<open>**kwargs\<close>, \<^verbatim>\<open>**options\<close>): names with their values.\<close>

type_synonym kwargs = "(string \<times> string) list"

datatype test_suite = TestSuite "string list"

datatype resultclass = TextTestResult | XMLTestResult

text \<open>A result object: the class it was built from and an identity.\<close>

datatype test_result = TestResult resultclass nat

text \<open>What \<^verbatim>\<open>optparse.make_option\<close> is given: flag, action, dest, default, help.\<close>

datatype opt_default = DefaultBool bool | DefaultStr string

datatype optparse_option = make_option string string string opt_default string

text \<open>An \<^verbatim>\<open>argparse\<close> parser, as the list of arguments added to it so far.\<close>

type_synonym parser = "optparse_option list"

subsection \<open>Tasks\<close>

datatype phase = SetupEnv | BeforeSuite | AfterSuite | TeardownEnv

text \<open>
  A hook receives the suite (\<open>before_suite_run\<close>, \<open>after_suite_run\<close>) or none
  (\<open>setup_test_environment\<close>, \<open>teardown_test_environment\<close>) and the keyword arguments;
  it returns or raises.
\<close>

type_synonym hook_args = "test_suite option \<times> kwargs"

type_synonym hook = "hook_args \<Rightarrow> exn + unit"

text \<open>
  A task instance: \<open>task_hooks t ph = None\<close> when \<^verbatim>\<open>hasattr(task, name)\<close> is false
  for the hook of phase \<open>ph\<close>.
\<close>

record task =
  task_name :: string
  task_hooks :: "phase \<Rightarrow> hook option"

text \<open>
  A task class: its constructor, called as \<^verbatim>\<open>task_class(output_dir=output_dir, **options)\<close>,
  the class attribute \<open>option_list\<close> and the class method \<open>add_arguments\<close>, each
  \<open>None\<close> when the class does not define it.
\<close>

record task_class =
  cls_name :: string
  cls_new :: "string option \<Rightarrow> kwargs \<Rightarrow> exn + task"
  cls_option_list :: "optparse_option list option"
  cls_add_arguments :: "(parser \<Rightarrow> exn + parser) option"

text \<open>An imported module: its attributes by name.\<close>

type_synonym pymodule = "string \<Rightarrow> task_class option"

subsection \<open>Events and actions\<close>

record runner_config =
  cfg_buffer :: bool
  cfg_resultclass :: resultclass
  cfg_verbosity :: int
  cfg_failfast :: bool

datatype event =
    Import string
  | Instantiate string "string option" kwargs
  | BaseInit kwargs
  | BaseSetup kwargs
  | BaseRunSuite test_suite kwargs
  | BaseTeardown kwargs
  | HookCall phase string hook_args
  | TextTestRunnerRun runner_config test_suite
  | DumpXml test_result "string option"

text \<open>An action yields the calls it made, in order, and a value or the exception raised.\<close>

type_synonym 'a act = "event list \<times> (exn + 'a)"

definition ret :: "'a \<Rightarrow> 'a act" where
  "ret x = ([], Inr x)"

definition call :: "event \<Rightarrow> exn + 'a \<Rightarrow> 'a act" where
  "call ev r = ([ev], r)"

definition bind :: "'a act \<Rightarrow> ('a \<Rightarrow> 'b act) \<Rightarrow> 'b act" where
  "bind m f =
     (case m of
        (tr, Inl e) \<Rightarrow> (tr, Inl e)
      | (tr, Inr x) \<Rightarrow> (case f x of (tr', r) \<Rightarrow> (tr @ tr', r)))"

subsection \<open>The environment\<close>

text \<open>The wrapped runner's own settings, set by its \<^verbatim>\<open>__init__\<close>.\<close>

record base_runner =
  base_verbosity :: int
  base_failfast :: bool

record env =
  TASKS :: "string list"
  OUTPUT_DIR :: string
  django_VERSION :: "nat \<times> nat"
  import_module :: "string \<Rightarrow> exn + pymodule"
  base_init :: "kwargs \<Rightarrow> exn + base_runner"
  base_setup_test_environment :: "kwargs \<Rightarrow> exn + unit"
  base_run_suite :: "test_suite \<Rightarrow> kwargs \<Rightarrow> exn + test_result"
  base_teardown_test_environment :: "kwargs \<Rightarrow> exn + unit"
  base_option_list :: "optparse_option list"
  TextTestRunner_run :: "runner_config \<Rightarrow> test_suite \<Rightarrow> exn + test_result"
  dump_xml :: "test_result \<Rightarrow> string option \<Rightarrow> exn + unit"

section \<open>Task resolution\<close>

text \<open>
  \<^verbatim>\<open>s.rsplit(sep, 1)\<close>: the string split at its last separator, or the string alone
  when it holds none.
\<close>

definition rsplit1 :: "char \<Rightarrow> string \<Rightarrow> string list" where
  "rsplit1 sep s =
     (if sep \<in> set s
      then [rev (tl (dropWhile (\<lambda>c. c \<noteq> sep) (rev s))),
            rev (takeWhile (\<lambda>c. c \<noteq> sep) (rev s))]
      else [s])"

definition dq :: string where
  "dq = [CHR 0x22]"

definition sq :: string where
  "sq = [CHR 0x27]"

definition not_a_task_module :: "string \<Rightarrow> exn" where
  "not_a_task_module task_path =
     ImproperlyConfigured (task_path @ '' isn'' @ sq @ ''t a task module'')"

definition error_importing :: "string \<Rightarrow> string \<Rightarrow> exn" where
  "error_importing m e =
     ImproperlyConfigured (''Error importing task '' @ m @ '': '' @ dq @ e @ dq)"

definition does_not_define :: "string \<Rightarrow> string \<Rightarrow> exn" where
  "does_not_define m classname =
     ImproperlyConfigured
       (''Task module '' @ dq @ m @ dq @ '' does not define a '' @ dq @ classname @ dq
          @ '' class'')"

text \<open>
  The loop of \<open>get_tasks\<close> over the remaining descriptors, with \<open>task_classes\<close> as
  built so far. Unpacking \<^verbatim>\<open>module, classname = ...\<close> raises \<open>ValueError\<close> unless
  the list has two elements; only \<open>ImportError\<close> is caught around the import, any
  other exception of the import leaves \<open>get_tasks\<close> as it is.
\<close>

fun get_tasks_loop ::
  "(string \<Rightarrow> exn + pymodule) \<Rightarrow> string list \<Rightarrow> task_class list \<Rightarrow> task_class list act"
where
  "get_tasks_loop imp [] task_classes = ret task_classes"
| "get_tasks_loop imp (task_path # rest) task_classes =
     (case rsplit1 (CHR ''.'') task_path of
        [m, classname] \<Rightarrow>
          (case imp m of
             Inl (ImportError e) \<Rightarrow> call (Import m) (Inl (error_importing m e))
           | Inl exc \<Rightarrow> call (Import m) (Inl exc)
           | Inr md \<Rightarrow>
               (case md classname of
                  None \<Rightarrow> call (Import m) (Inl (does_not_define m classname))
                | Some task_class \<Rightarrow>
                    bind (call (Import m) (Inr ()))
                      (\<lambda>_. get_tasks_loop imp rest (task_classes @ [task_class]))))
      | _ \<Rightarrow> ([], Inl (not_a_task_module task_path)))"

definition get_tasks :: "env \<Rightarrow> task_class list act" where
  "get_tasks env = get_tasks_loop (import_module env) (TASKS env) []"

text \<open>
  One descriptor on its own: the class it names, when it has a separator, its module
  imports and the module has the attribute.
\<close>

definition resolve_descriptor ::
  "(string \<Rightarrow> exn + pymodule) \<Rightarrow> string \<Rightarrow> task_class option"
where
  "resolve_descriptor imp task_path =
     (case rsplit1 (CHR ''.'') task_path of
        [m, classname] \<Rightarrow> (case imp m of Inl _ \<Rightarrow> None | Inr md \<Rightarrow> md classname)
      | _ \<Rightarrow> None)"

text \<open>The import that a descriptor with a separator leads to.\<close>

definition import_of :: "string \<Rightarrow> event" where
  "import_of task_path = Import (hd (rsplit1 (CHR ''.'') task_path))"

text \<open>Each descriptor of \<open>ds\<close> resolves, to the class at its place in \<open>cs\<close>.\<close>

definition resolve_all ::
  "(string \<Rightarrow> exn + pymodule) \<Rightarrow> string list \<Rightarrow> task_class list \<Rightarrow> bool"
where
  "resolve_all imp ds cs = list_all2 (\<lambda>d c. resolve_descriptor imp d = Some c) ds cs"

section \<open>The legacy option list\<close>

text \<open>
  The loop of \<open>get_task_options\<close>: \<^verbatim>\<open>options += cls.option_list\<close> reads the class
  attribute without asking whether the class has it.
\<close>

definition no_attribute :: "string \<Rightarrow> string \<Rightarrow> exn" where
  "no_attribute cls attr =
     AttributeError
       (''type object '' @ sq @ cls @ sq @ '' has no attribute '' @ sq @ attr @ sq)"

fun get_task_options_loop ::
  "task_class list \<Rightarrow> optparse_option list \<Rightarrow> exn + optparse_option list"
where
  "get_task_options_loop [] options = Inr options"
| "get_task_options_loop (cls # rest) options =
     (case cls_option_list cls of
        None \<Rightarrow> Inl (no_attribute (cls_name cls) ''option_list'')
      | Some option_list \<Rightarrow> get_task_options_loop rest (options @ option_list))"

definition get_task_options :: "env \<Rightarrow> optparse_option list act" where
  "get_task_options env =
     bind (get_tasks env) (\<lambda>task_classes. ([], get_task_options_loop task_classes []))"

definition jenkins_option :: optparse_option where
  "jenkins_option =
     make_option ''--jenkins'' ''store_true'' ''jenkins'' (DefaultBool False)
       ''Process the Jenkins tasks from TEST_JENKINS_TASKS.''"

definition output_dir_option :: "string \<Rightarrow> optparse_option" where
  "output_dir_option dir =
     make_option ''--output-dir'' ''store'' ''output_dir'' (DefaultStr dir)
       ''Top level of project for unittest discovery.''"

text \<open>\<^verbatim>\<open>django.VERSION < (1, 8)\<close>, on the major and minor number of the version.\<close>

definition legacy :: "nat \<times> nat \<Rightarrow> bool" where
  "legacy v = (fst v < 1 \<or> (fst v = 1 \<and> snd v < 8))"

text \<open>
  The class attribute \<open>CIRunner.option_list\<close>, computed when the class body runs:
  \<open>None\<close> when the body does not define it.
\<close>

definition CIRunner_option_list :: "env \<Rightarrow> optparse_option list act option" where
  "CIRunner_option_list env =
     (if legacy (django_VERSION env)
      then Some (bind (get_task_options env)
        (\<lambda>options. ret (options @ [jenkins_option, output_dir_option (OUTPUT_DIR env)])))
      else None)"

definition DiscoverCIRunner_option_list :: "env \<Rightarrow> optparse_option list act option" where
  "DiscoverCIRunner_option_list env =
     (if legacy (django_VERSION env)
      then map_option (\<lambda>a. bind a (\<lambda>option_list. ret (base_option_list env @ option_list)))
             (CIRunner_option_list env)
      else None)"

section \<open>The argument parser\<close>

fun add_task_arguments :: "task_class list \<Rightarrow> parser \<Rightarrow> exn + parser" where
  "add_task_arguments [] parser = Inr parser"
| "add_task_arguments (task_cls # rest) parser =
     (case cls_add_arguments task_cls of
        None \<Rightarrow> add_task_arguments rest parser
      | Some add \<Rightarrow>
          (case add parser of
             Inl e \<Rightarrow> Inl e
           | Inr parser' \<Rightarrow> add_task_arguments rest parser'))"

definition CIRunner_add_arguments :: "env \<Rightarrow> parser \<Rightarrow> parser act" where
  "CIRunner_add_arguments env parser =
     bind (get_tasks env) (\<lambda>task_classes.
     bind ([], add_task_arguments task_classes parser) (\<lambda>parser'.
     ret (parser' @ [jenkins_option, output_dir_option (OUTPUT_DIR env)])))"

section \<open>The runner\<close>

text \<open>
  The attributes \<open>output_dir\<close> and \<open>tasks\<close> exist only once \<^verbatim>\<open>__init__\<close> has
  assigned them: \<open>None\<close> is the missing attribute, and \<open>Some None\<close> the attribute
  \<open>output_dir\<close> holding Python's \<open>None\<close>.
\<close>

record runner =
  jenkins :: bool
  verbosity :: int
  failfast :: bool
  output_dir_attr :: "string option option"
  tasks_attr :: "task list option"

text \<open>Reading \<^verbatim>\<open>self.tasks\<close> and \<^verbatim>\<open>self.output_dir\<close>.\<close>

definition self_tasks :: "runner \<Rightarrow> task list act" where
  "self_tasks self =
     (case tasks_attr self of
        None \<Rightarrow> ([], Inl (AttributeError ''tasks''))
      | Some tasks \<Rightarrow> ret tasks)"

definition self_output_dir :: "runner \<Rightarrow> string option act" where
  "self_output_dir self =
     (case output_dir_attr self of
        None \<Rightarrow> ([], Inl (AttributeError ''output_dir''))
      | Some output_dir \<Rightarrow> ret output_dir)"

text \<open>The loop of \<^verbatim>\<open>__init__\<close> that instantiates the task classes.\<close>

fun instantiate_tasks ::
  "task_class list \<Rightarrow> string option \<Rightarrow> kwargs \<Rightarrow> task list \<Rightarrow> task list act"
where
  "instantiate_tasks [] output_dir options tasks = ret tasks"
| "instantiate_tasks (task_class # rest) output_dir options tasks =
     bind (call (Instantiate (cls_name task_class) output_dir options)
             (cls_new task_class output_dir options))
       (\<lambda>inst. instantiate_tasks rest output_dir options (tasks @ [inst]))"

definition CIRunner_init :: "env \<Rightarrow> bool \<Rightarrow> string option \<Rightarrow> kwargs \<Rightarrow> runner act" where
  "CIRunner_init env jenkins_arg output_dir options =
     bind (call (BaseInit options) (base_init env options)) (\<lambda>b.
       let self = \<lparr>jenkins = jenkins_arg, verbosity = base_verbosity b,
                     failfast = base_failfast b, output_dir_attr = None, tasks_attr = None\<rparr>
       in if jenkins self
          then let self = self\<lparr>output_dir_attr := Some output_dir\<rparr> in
               bind (get_tasks env) (\<lambda>task_classes.
               bind (instantiate_tasks task_classes output_dir options []) (\<lambda>tasks.
               ret (self\<lparr>tasks_attr := Some tasks\<rparr>)))
          else ret self)"

text \<open>
  The loop the four lifecycle methods share, each for its own hook:
  \<^verbatim>\<open>for task in self.tasks: if hasattr(task, name): getattr(task, name)(...)\<close>.
\<close>

fun dispatch_hook :: "phase \<Rightarrow> hook_args \<Rightarrow> task list \<Rightarrow> unit act" where
  "dispatch_hook ph args [] = ret ()"
| "dispatch_hook ph args (task # rest) =
     (case task_hooks task ph of
        None \<Rightarrow> dispatch_hook ph args rest
      | Some h \<Rightarrow>
          bind (call (HookCall ph (task_name task) args) (h args))
            (\<lambda>_. dispatch_hook ph args rest))"

definition setup_test_environment :: "env \<Rightarrow> runner \<Rightarrow> kwargs \<Rightarrow> unit act" where
  "setup_test_environment env self kwargs =
     bind (call (BaseSetup kwargs) (base_setup_test_environment env kwargs)) (\<lambda>_.
       if jenkins self
       then bind (self_tasks self) (dispatch_hook SetupEnv (None, kwargs))
       else ret ())"

definition run_suite :: "env \<Rightarrow> runner \<Rightarrow> test_suite \<Rightarrow> kwargs \<Rightarrow> test_result act" where
  "run_suite env self suite kwargs =
     (if jenkins self
      then
        bind (self_tasks self) (\<lambda>tasks.
        bind (dispatch_hook BeforeSuite (Some suite, kwargs) tasks) (\<lambda>_.
        let cfg = \<lparr>cfg_buffer = True, cfg_resultclass = XMLTestResult,
                    cfg_verbosity = verbosity self, cfg_failfast = failfast self\<rparr> in
        bind (call (TextTestRunnerRun cfg suite) (TextTestRunner_run env cfg suite)) (\<lambda>result.
        bind (self_output_dir self) (\<lambda>output_dir.
        bind (call (DumpXml result output_dir) (dump_xml env result output_dir)) (\<lambda>_.
        bind (self_tasks self) (\<lambda>tasks'.
        bind (dispatch_hook AfterSuite (Some suite, kwargs) tasks') (\<lambda>_.
        ret result)))))))
      else call (BaseRunSuite suite kwargs) (base_run_suite env suite kwargs))"

definition teardown_test_environment :: "env \<Rightarrow> runner \<Rightarrow> kwargs \<Rightarrow> unit act" where
  "teardown_test_environment env self kwargs =
     bind (call (BaseTeardown kwargs) (base_teardown_test_environment env kwargs)) (\<lambda>_.
       if jenkins self
       then bind (self_tasks self) (dispatch_hook TeardownEnv (None, kwargs))
       else ret ())"

section \<open>Vocabulary of the properties\<close>

text \<open>Whether a task has the hook of a phase, and the call the dispatcher makes of it.\<close>

definition defines_hook :: "phase \<Rightarrow> task \<Rightarrow> bool" where
  "defines_hook ph t = (task_hooks t ph \<noteq> None)"

definition hook_call :: "phase \<Rightarrow> hook_args \<Rightarrow> task \<Rightarrow> event" where
  "hook_call ph args t = HookCall ph (task_name t) args"

text \<open>The hook calls of a task list in list order, for the tasks that have the hook.\<close>

definition hook_calls :: "phase \<Rightarrow> hook_args \<Rightarrow> task list \<Rightarrow> event list" where
  "hook_calls ph args ts = map (hook_call ph args) (filter (defines_hook ph) ts)"

text \<open>A task whose hook of the phase, when it has one, returns on these arguments.\<close>

definition hook_returns :: "phase \<Rightarrow> hook_args \<Rightarrow> task \<Rightarrow> bool" where
  "hook_returns ph args t =
     (case task_hooks t ph of None \<Rightarrow> True | Some h \<Rightarrow> h args = Inr ())"

text \<open>A task whose hook of the phase raises \<open>e\<close> on these arguments.\<close>

definition hook_raises :: "phase \<Rightarrow> hook_args \<Rightarrow> exn \<Rightarrow> task \<Rightarrow> bool" where
  "hook_raises ph args e t =
     (case task_hooks t ph of None \<Rightarrow> False | Some h \<Rightarrow> h args = Inl e)"

text \<open>The events of a trace that are hook calls of a phase.\<close>

fun is_hook_call :: "phase \<Rightarrow> event \<Rightarrow> bool" where
  "is_hook_call ph (HookCall ph' n args) = (ph' = ph)"
| "is_hook_call ph ev = False"

text \<open>A descriptor that resolves.\<close>

definition resolves :: "(string \<Rightarrow> exn + pymodule) \<Rightarrow> string \<Rightarrow> bool" where
  "resolves imp d = (resolve_descriptor imp d \<noteq> None)"

section \<open>An example project\<close>

text \<open>
  A project with one task module, \<open>proj.tasks\<close>: \<open>TaskA\<close> has every hook, an
  option list and \<open>add_arguments\<close>; \<open>TaskB\<close> has \<open>after_suite_run\<close> only, and
  neither an option list nor \<open>add_arguments\<close>; the hooks of \<open>TaskC\<close> raise.
\<close>

definition returning_hook :: hook where
  "returning_hook args = Inr ()"

definition raising_hook :: hook where
  "raising_hook args = Inl (Raised ''RuntimeError'')"

definition task_a :: task where
  "task_a = \<lparr>task_name = ''a'', task_hooks = (\<lambda>ph. Some returning_hook)\<rparr>"

definition task_b :: task where
  "task_b = \<lparr>task_name = ''b'',
     task_hooks = (\<lambda>ph. if ph = AfterSuite then Some returning_hook else None)\<rparr>"

definition task_c :: task where
  "task_c = \<lparr>task_name = ''c'', task_hooks = (\<lambda>ph. Some raising_hook)\<rparr>"

definition coverage_option :: optparse_option where
  "coverage_option =
     make_option ''--coverage-rcfile'' ''store'' ''coverage_rcfile'' (DefaultStr [])
       ''Specify configuration file.''"

definition TaskA :: task_class where
  "TaskA = \<lparr>cls_name = ''TaskA'', cls_new = (\<lambda>output_dir options. Inr task_a),
     cls_option_list = Some [coverage_option],
     cls_add_arguments = Some (\<lambda>parser. Inr (parser @ [coverage_option]))\<rparr>"

definition TaskB :: task_class where
  "TaskB = \<lparr>cls_name = ''TaskB'', cls_new = (\<lambda>output_dir options. Inr task_b),
     cls_option_list = None, cls_add_arguments = None\<rparr>"

definition TaskC :: task_class where
  "TaskC = \<lparr>cls_name = ''TaskC'', cls_new = (\<lambda>output_dir options. Inr task_c),
     cls_option_list = Some [], cls_add_arguments = None\<rparr>"

definition proj_tasks :: pymodule where
  "proj_tasks classname =
     (if classname = ''TaskA'' then Some TaskA
      else if classname = ''TaskB'' then Some TaskB
      else if classname = ''TaskC'' then Some TaskC
      else None)"

definition proj_import :: "string \<Rightarrow> exn + pymodule" where
  "proj_import m =
     (if m = ''proj.tasks'' then Inr proj_tasks
      else Inl (ImportError (''No module named '' @ m)))"

definition proj_env :: "string list \<Rightarrow> env" where
  "proj_env tasks =
     \<lparr>TASKS = tasks, OUTPUT_DIR = ''reports'', django_VERSION = (1, 7),
      import_module = proj_import,
      base_init = (\<lambda>options. Inr \<lparr>base_verbosity = 1, base_failfast = False\<rparr>),
      base_setup_test_environment = (\<lambda>kwargs. Inr ()),
      base_run_suite = (\<lambda>suite kwargs. Inr (TestResult TextTestResult 0)),
      base_teardown_test_environment = (\<lambda>kwargs. Inr ()),
      base_option_list = [],
      TextTestRunner_run = (\<lambda>cfg suite. Inr (TestResult (cfg_resultclass cfg) 1)),
      dump_xml = (\<lambda>result output_dir. Inr ())\<rparr>"

definition proj_runner :: "task list \<Rightarrow> runner" where
  "proj_runner ts =
     \<lparr>jenkins = True, verbosity = 1, failfast = False,
      output_dir_attr = Some (Some ''reports''), tasks_attr = Some ts\<rparr>"

definition proj_suite :: test_suite where
  "proj_suite = TestSuite [''test_views'', ''test_models'']"

definition proj_kwargs :: kwargs where
  "proj_kwargs = [(''debug'', ''False'')]"

text \<open>A task whose only hook is \<open>after_suite_run\<close>, which raises.\<close>

definition task_d :: task where
  "task_d = \<lparr>task_name = ''d'',
     task_hooks = (\<lambda>ph. if ph = AfterSuite then Some raising_hook else None)\<rparr>"


section \<open>Properties: actions\<close>

lemma bind_ret: "bind (ret x) f = f x"
  by (simp add: bind_def ret_def split: prod.splits)

lemma bind_Inl: "bind (tr, Inl e) f = (tr, Inl e)"
  by (simp add: bind_def)

lemma bind_Inr: "bind (tr, Inr x) f = (tr @ fst (f x), snd (f x))"
  by (simp add: bind_def split: prod.splits)

lemma bind_call_Inl: "bind (call ev (Inl e)) f = ([ev], Inl e)"
  by (simp add: call_def bind_Inl)

lemma bind_call_Inr: "bind (call ev (Inr x)) f = (ev # fst (f x), snd (f x))"
  by (simp add: call_def bind_Inr)

lemma bind_ret_right: "bind m ret = m"
proof (cases m)
  case (Pair tr r)
  then show ?thesis
    by (cases r) (simp_all add: bind_def ret_def)
qed

lemma rsplit1_no_sep: "sep \<notin> set s \<Longrightarrow> rsplit1 sep s = [s]"
  by (simp add: rsplit1_def)

lemma rsplit1_last_sep:
  assumes "sep \<notin> set c"
  shows "rsplit1 sep (m @ sep # c) = [m, c]"
proof -
  let ?P = "\<lambda>x. x \<noteq> sep"
  have "takeWhile ?P (rev c @ sep # rev m) = rev c @ takeWhile ?P (sep # rev m)"
    by (rule takeWhile_append2) (use assms in auto)
  then have tw: "takeWhile ?P (rev (m @ sep # c)) = rev c"
    by simp
  have "dropWhile ?P (rev c @ sep # rev m) = dropWhile ?P (sep # rev m)"
    by (rule dropWhile_append2) (use assms in auto)
  then have dw: "dropWhile ?P (rev (m @ sep # c)) = sep # rev m"
    by simp
  show ?thesis
    unfolding rsplit1_def tw dw by simp
qed

lemma rsplit1_two: "rsplit1 sep s = [m, c] \<longleftrightarrow> s = m @ sep # c \<and> sep \<notin> set c"
proof
  assume r: "rsplit1 sep s = [m, c]"
  have "sep \<in> set s"
  proof (rule ccontr)
    assume "sep \<notin> set s"
    then have "rsplit1 sep s = [s]" by (rule rsplit1_no_sep)
    with r show False by simp
  qed
  then obtain m' c' where s: "s = m' @ sep # c'" and c': "sep \<notin> set c'"
    using split_list_last [of sep s] by blast
  have "rsplit1 sep (m' @ sep # c') = [m', c']"
    using c' by (rule rsplit1_last_sep)
  moreover have "rsplit1 sep (m' @ sep # c') = [m, c]"
    using r unfolding s .
  ultimately have "[m', c'] = [m, c]" by simp
  then show "s = m @ sep # c \<and> sep \<notin> set c"
    using s c' by simp
next
  assume "s = m @ sep # c \<and> sep \<notin> set c"
  then show "rsplit1 sep s = [m, c]"
    by (simp add: rsplit1_last_sep)
qed

lemma rsplit1_one: "rsplit1 sep s = [x] \<longleftrightarrow> sep \<notin> set s \<and> x = s"
  by (auto simp: rsplit1_def)

section \<open>Properties: task resolution\<close>

lemma resolve_descriptor_Some:
  assumes "resolve_descriptor imp d = Some c"
  obtains m classname md where
    "rsplit1 (CHR ''.'') d = [m, classname]" "imp m = Inr md" "md classname = Some c"
  using assms
  by (auto simp: resolve_descriptor_def split: list.splits sum.splits)

lemma get_tasks_loop_resolved_head:
  assumes "resolve_descriptor imp d = Some c"
  shows "get_tasks_loop imp (d # rest) acc =
           (import_of d # fst (get_tasks_loop imp rest (acc @ [c])),
            snd (get_tasks_loop imp rest (acc @ [c])))"
proof -
  from assms obtain m classname md where
    "rsplit1 (CHR ''.'') d = [m, classname]" "imp m = Inr md" "md classname = Some c"
    by (rule resolve_descriptor_Some)
  then show ?thesis
    by (simp add: import_of_def bind_call_Inr)
qed

lemma get_tasks_loop_resolved:
  assumes "resolve_all imp ds cs"
  shows "get_tasks_loop imp (ds @ rest) acc =
           (map import_of ds @ fst (get_tasks_loop imp rest (acc @ cs)),
            snd (get_tasks_loop imp rest (acc @ cs)))"
  using assms unfolding resolve_all_def
proof (induction ds cs arbitrary: acc rule: list_all2_induct)
  case Nil
  show ?case by simp
next
  case (Cons d ds c cs)
  have "get_tasks_loop imp ((d # ds) @ rest) acc =
          (import_of d # fst (get_tasks_loop imp (ds @ rest) (acc @ [c])),
           snd (get_tasks_loop imp (ds @ rest) (acc @ [c])))"
    using get_tasks_loop_resolved_head [OF Cons.hyps(1), of "ds @ rest" acc]
    by (simp del: get_tasks_loop.simps)
  then show ?case
    by (simp add: Cons.IH del: get_tasks_loop.simps)
qed

lemma get_tasks_loop_no_separator:
  assumes "CHR ''.'' \<notin> set d"
  shows "get_tasks_loop imp (d # rest) acc = ([], Inl (not_a_task_module d))"
  using assms by (simp add: rsplit1_no_sep)




text \<open>
  A descriptor that does not resolve ends the loop with an exception; the import of its
  module, when it has a separator, is the last call made.
\<close>

lemma get_tasks_loop_unresolved_head:
  assumes "resolve_descriptor imp d = None"
  shows "\<exists>e. get_tasks_loop imp (d # rest) acc =
           (if CHR ''.'' \<in> set d then [import_of d] else [], Inl e)"
proof (cases "CHR ''.'' \<in> set d")
  case False
  then show ?thesis
    by (simp add: rsplit1_no_sep)
next
  case True
  then obtain m classname where r: "rsplit1 (CHR ''.'') d = [m, classname]"
    by (auto simp: rsplit1_def)
  show ?thesis
  proof (cases "imp m")
    case (Inl exc)
    then show ?thesis
      using r True by (cases exc) (simp_all add: call_def import_of_def)
  next
    case (Inr md)
    with assms r have "md classname = None"
      by (simp add: resolve_descriptor_def)
    with Inr r True show ?thesis
      by (simp add: call_def import_of_def)
  qed
qed

lemma resolve_descriptor_iff:
  "resolve_descriptor imp d = Some c \<longleftrightarrow>
     (\<exists>m classname md. d = m @ ''.'' @ classname \<and> CHR ''.'' \<notin> set classname \<and>
        imp m = Inr md \<and> md classname = Some c)"
proof
  assume "resolve_descriptor imp d = Some c"
  then obtain m classname md where
    "rsplit1 (CHR ''.'') d = [m, classname]" "imp m = Inr md" "md classname = Some c"
    by (rule resolve_descriptor_Some)
  then show "\<exists>m classname md. d = m @ ''.'' @ classname \<and> CHR ''.'' \<notin> set classname \<and>
        imp m = Inr md \<and> md classname = Some c"
    by (auto simp: rsplit1_two)
next
  assume "\<exists>m classname md. d = m @ ''.'' @ classname \<and> CHR ''.'' \<notin> set classname \<and>
        imp m = Inr md \<and> md classname = Some c"
  then obtain m classname md where
    "d = m @ CHR ''.'' # classname" "CHR ''.'' \<notin> set classname"
    "imp m = Inr md" "md classname = Some c"
    by auto
  then show "resolve_descriptor imp d = Some c"
    by (simp add: resolve_descriptor_def rsplit1_last_sep)
qed

lemma resolve_all_map:
  assumes "list_all (resolves imp) ds"
  shows "resolve_all imp ds (map (\<lambda>d. the (resolve_descriptor imp d)) ds)"
  using assms
  by (induction ds) (auto simp: resolve_all_def resolves_def)

lemma get_tasks_loop_all_resolved:
  assumes "list_all (resolves imp) ds"
  shows "get_tasks_loop imp ds acc =
           (map import_of ds, Inr (acc @ map (\<lambda>d. the (resolve_descriptor imp d)) ds))"
  using get_tasks_loop_resolved [OF resolve_all_map [OF assms], of "[]" acc]
  by (simp add: ret_def)

lemma get_tasks_loop_prefix_resolved:
  assumes "list_all (resolves imp) pre"
  shows "get_tasks_loop imp (pre @ d # post) [] =
           (map import_of pre @
              fst (get_tasks_loop imp (d # post) (map (\<lambda>d. the (resolve_descriptor imp d)) pre)),
            snd (get_tasks_loop imp (d # post) (map (\<lambda>d. the (resolve_descriptor imp d)) pre)))"
  using get_tasks_loop_resolved [OF resolve_all_map [OF assms], of "d # post" "[]"]
  by (simp del: get_tasks_loop.simps)

text \<open>
  C3. When every descriptor of the configuration list resolves, \<open>get_tasks\<close> returns
  the classes the descriptors resolve to, one for each descriptor and in the order of
  the list.
\<close>

theorem get_tasks_configuration_order:
  assumes "list_all (resolves (import_module env)) (TASKS env)"
  shows "snd (get_tasks env) =
           Inr (map (\<lambda>d. the (resolve_descriptor (import_module env) d)) (TASKS env))"
  using get_tasks_loop_all_resolved [OF assms, of "[]"]
  by (simp add: get_tasks_def)

theorem get_tasks_configuration_order_witness:
  "list_all (resolves (import_module (proj_env [''proj.tasks.TaskB'', ''proj.tasks.TaskA''])))
     (TASKS (proj_env [''proj.tasks.TaskB'', ''proj.tasks.TaskA'']))
   \<and> snd (get_tasks (proj_env [''proj.tasks.TaskB'', ''proj.tasks.TaskA''])) = Inr [TaskB, TaskA]"
proof -
  let ?env = "proj_env [''proj.tasks.TaskB'', ''proj.tasks.TaskA'']"
  have b: "resolve_descriptor proj_import ''proj.tasks.TaskB'' = Some TaskB"
    by (simp add: resolve_descriptor_def rsplit1_def proj_import_def proj_tasks_def)
  have a: "resolve_descriptor proj_import ''proj.tasks.TaskA'' = Some TaskA"
    by (simp add: resolve_descriptor_def rsplit1_def proj_import_def proj_tasks_def)
  have h: "list_all (resolves (import_module ?env)) (TASKS ?env)"
    by (simp add: proj_env_def resolves_def a b)
  have "snd (get_tasks ?env) =
          Inr (map (\<lambda>d. the (resolve_descriptor (import_module ?env) d)) (TASKS ?env))"
    using h by (rule get_tasks_configuration_order)
  then have "snd (get_tasks ?env) = Inr [TaskB, TaskA]"
    by (simp add: proj_env_def a b)
  with h show ?thesis by simp
qed

lemma TaskA_resolves: "resolve_descriptor proj_import ''proj.tasks.TaskA'' = Some TaskA"
  by (simp add: resolve_descriptor_def rsplit1_def proj_import_def proj_tasks_def)

lemma TaskB_resolves: "resolve_descriptor proj_import ''proj.tasks.TaskB'' = Some TaskB"
  by (simp add: resolve_descriptor_def rsplit1_def proj_import_def proj_tasks_def)

lemma TaskC_resolves: "resolve_descriptor proj_import ''proj.tasks.TaskC'' = Some TaskC"
  by (simp add: resolve_descriptor_def rsplit1_def proj_import_def proj_tasks_def)

lemma get_tasks_first_unresolved:
  assumes "TASKS env = pre @ d # post"
    and "list_all (resolves (import_module env)) pre"
  shows "get_tasks env =
           (map import_of pre @
              fst (get_tasks_loop (import_module env) (d # post)
                     (map (\<lambda>d. the (resolve_descriptor (import_module env) d)) pre)),
            snd (get_tasks_loop (import_module env) (d # post)
                   (map (\<lambda>d. the (resolve_descriptor (import_module env) d)) pre)))"
  unfolding get_tasks_def assms(1)
  using assms(2) by (rule get_tasks_loop_prefix_resolved)




text \<open>
  C7. Let \<open>d\<close> be the first descriptor of the configuration list that does not resolve.
  When \<open>d\<close> has no separator, \<open>get_tasks\<close> raises \<open>ImproperlyConfigured\<close>. Whatever
  the reason \<open>d\<close> does not resolve, \<open>get_tasks\<close> raises and returns no list; it has
  imported the module of each descriptor before \<open>d\<close> once and, when \<open>d\<close> has a
  separator, tried the module of \<open>d\<close> once; the descriptors after \<open>d\<close> play no part.
\<close>

theorem get_tasks_first_failure_aborts:
  assumes "TASKS env = pre @ d # post"
    and "list_all (resolves (import_module env)) pre"
  shows "(CHR ''.'' \<notin> set d \<longrightarrow>
            snd (get_tasks env) =
              Inl (ImproperlyConfigured (d @ '' isn'' @ sq @ ''t a task module'')))
       \<and> (\<not> resolves (import_module env) d \<longrightarrow>
            (\<exists>e. snd (get_tasks env) = Inl e) \<and>
            fst (get_tasks env) =
              map import_of pre @ (if CHR ''.'' \<in> set d then [import_of d] else []) \<and>
            get_tasks env = get_tasks (env\<lparr>TASKS := pre @ [d]\<rparr>))"
proof -
  let ?imp = "import_module env"
  let ?acc = "map (\<lambda>d. the (resolve_descriptor ?imp d)) pre"
  note first = get_tasks_first_unresolved [OF assms]
  have nosep: "snd (get_tasks env) =
      Inl (ImproperlyConfigured (d @ '' isn'' @ sq @ ''t a task module''))"
    if "CHR ''.'' \<notin> set d"
    using first get_tasks_loop_no_separator [OF that, of ?imp post ?acc]
    by (simp add: not_a_task_module_def del: get_tasks_loop.simps)
  have unres: "(\<exists>e. snd (get_tasks env) = Inl e) \<and>
      fst (get_tasks env) =
        map import_of pre @ (if CHR ''.'' \<in> set d then [import_of d] else []) \<and>
      get_tasks env = get_tasks (env\<lparr>TASKS := pre @ [d]\<rparr>)"
    if "\<not> resolves ?imp d"
  proof -
    from that have none: "resolve_descriptor ?imp d = None"
      by (simp add: resolves_def)
    obtain e where e: "get_tasks_loop ?imp (d # post) ?acc =
        (if CHR ''.'' \<in> set d then [import_of d] else [], Inl e)"
      using get_tasks_loop_unresolved_head [OF none] by blast
    let ?calls = "if CHR ''.'' \<in> set d then [import_of d] else []"
    have same: "get_tasks_loop ?imp [d] ?acc = get_tasks_loop ?imp (d # post) ?acc"
      using none
      by (auto simp: resolve_descriptor_def split: list.splits sum.splits exn.splits)
    then have l1: "get_tasks_loop ?imp [d] ?acc = (?calls, Inl e)"
      using e by (simp del: get_tasks_loop.simps)
    have cut: "get_tasks (env\<lparr>TASKS := pre @ [d]\<rparr>) =
        (map import_of pre @ fst (get_tasks_loop ?imp [d] ?acc),
         snd (get_tasks_loop ?imp [d] ?acc))"
      using get_tasks_first_unresolved [of "env\<lparr>TASKS := pre @ [d]\<rparr>" pre d "[]"] assms(2)
      by simp
    have g: "get_tasks env = (map import_of pre @ ?calls, Inl e)"
      using first by (simp only: e fst_conv snd_conv)
    have g': "get_tasks (env\<lparr>TASKS := pre @ [d]\<rparr>) = (map import_of pre @ ?calls, Inl e)"
      using cut by (simp only: l1 fst_conv snd_conv)
    show ?thesis
      by (simp only: g g' fst_conv snd_conv) simp
  qed
  from nosep unres show ?thesis by blast
qed

theorem get_tasks_first_failure_aborts_witness:
  "TASKS (proj_env [''proj.tasks.TaskA'', ''TaskB'', ''proj.tasks.TaskC'']) =
     [''proj.tasks.TaskA''] @ ''TaskB'' # [''proj.tasks.TaskC'']
   \<and> list_all (resolves proj_import) [''proj.tasks.TaskA'']
   \<and> CHR ''.'' \<notin> set ''TaskB''
   \<and> \<not> resolves proj_import ''TaskB''
   \<and> get_tasks (proj_env [''proj.tasks.TaskA'', ''TaskB'', ''proj.tasks.TaskC'']) =
       ([Import ''proj.tasks''],
        Inl (ImproperlyConfigured (''TaskB'' @ '' isn'' @ sq @ ''t a task module'')))"
proof -
  let ?env = "proj_env [''proj.tasks.TaskA'', ''TaskB'', ''proj.tasks.TaskC'']"
  have t: "TASKS ?env = [''proj.tasks.TaskA''] @ ''TaskB'' # [''proj.tasks.TaskC'']"
    by (simp add: proj_env_def)
  have i: "import_module ?env = proj_import"
    by (simp add: proj_env_def)
  have pre: "list_all (resolves proj_import) [''proj.tasks.TaskA'']"
    by (simp add: resolves_def TaskA_resolves)
  have nodot: "CHR ''.'' \<notin> set ''TaskB''"
    by simp
  have unres: "\<not> resolves proj_import ''TaskB''"
    by (simp add: resolves_def resolve_descriptor_def rsplit1_def)
  have imp_a: "import_of ''proj.tasks.TaskA'' = Import ''proj.tasks''"
    by (simp add: import_of_def rsplit1_def)
  note aborts = get_tasks_first_failure_aborts [OF t, unfolded i, OF pre]
  from aborts nodot have "snd (get_tasks ?env) =
      Inl (ImproperlyConfigured (''TaskB'' @ '' isn'' @ sq @ ''t a task module''))"
    by blast
  moreover from aborts unres have "fst (get_tasks ?env) =
      map import_of [''proj.tasks.TaskA''] @
        (if CHR ''.'' \<in> set ''TaskB'' then [import_of ''TaskB''] else [])"
    by blast
  then have "fst (get_tasks ?env) = [Import ''proj.tasks'']"
    by (simp add: imp_a)
  ultimately have "get_tasks ?env =
      ([Import ''proj.tasks''],
       Inl (ImproperlyConfigured (''TaskB'' @ '' isn'' @ sq @ ''t a task module'')))"
    by (simp add: prod_eq_iff)
  with t pre nodot unres show ?thesis
    by (intro conjI)
qed

section \<open>Properties: hook dispatch\<close>

lemma dispatch_hook_skips:
  assumes "\<not> defines_hook ph t"
  shows "dispatch_hook ph args (t # ts) = dispatch_hook ph args ts"
  using assms by (simp add: defines_hook_def)

lemma dispatch_hook_returns:
  assumes "list_all (hook_returns ph args) ts"
  shows "dispatch_hook ph args ts = (hook_calls ph args ts, Inr ())"
  using assms
proof (induction ts)
  case Nil
  show ?case by (simp add: hook_calls_def ret_def)
next
  case (Cons t ts)
  then have ih: "dispatch_hook ph args ts = (hook_calls ph args ts, Inr ())"
    by simp
  show ?case
  proof (cases "task_hooks t ph")
    case None
    then show ?thesis
      using ih by (simp add: hook_calls_def defines_hook_def)
  next
    case (Some h)
    with Cons.prems have "h args = Inr ()"
      by (simp add: hook_returns_def)
    with Some ih show ?thesis
      by (simp add: hook_calls_def defines_hook_def hook_call_def bind_call_Inr)
  qed
qed

lemma dispatch_hook_raises_head:
  assumes "hook_raises ph args e t"
  shows "dispatch_hook ph args (t # post) = ([hook_call ph args t], Inl e)"
  using assms
  by (auto simp: hook_raises_def hook_call_def bind_call_Inl split: option.splits)

lemma dispatch_hook_append:
  assumes "list_all (hook_returns ph args) pre"
  shows "dispatch_hook ph args (pre @ rest) =
           (hook_calls ph args pre @ fst (dispatch_hook ph args rest),
            snd (dispatch_hook ph args rest))"
  using assms
proof (induction pre)
  case Nil
  show ?case by (simp add: hook_calls_def)
next
  case (Cons t pre)
  then have ih: "dispatch_hook ph args (pre @ rest) =
      (hook_calls ph args pre @ fst (dispatch_hook ph args rest),
       snd (dispatch_hook ph args rest))"
    by simp
  show ?case
  proof (cases "task_hooks t ph")
    case None
    then show ?thesis
      using ih by (simp add: hook_calls_def defines_hook_def)
  next
    case (Some h)
    with Cons.prems have "h args = Inr ()"
      by (simp add: hook_returns_def)
    with Some ih show ?thesis
      by (simp add: hook_calls_def defines_hook_def hook_call_def bind_call_Inr)
  qed
qed

lemma dispatch_hook_raises:
  assumes "list_all (hook_returns ph args) pre" and "hook_raises ph args e t"
  shows "dispatch_hook ph args (pre @ t # post) =
           (hook_calls ph args pre @ [hook_call ph args t], Inl e)"
  using dispatch_hook_append [OF assms(1), of "t # post"]
    dispatch_hook_raises_head [OF assms(2), of post]
  by (simp del: dispatch_hook.simps)

lemma filter_hook_calls_same:
  "filter (is_hook_call ph) (hook_calls ph args ts) = hook_calls ph args ts"
  by (induction ts) (simp_all add: hook_calls_def hook_call_def)

lemma filter_hook_calls_other:
  assumes "ph' \<noteq> ph"
  shows "filter (is_hook_call ph) (hook_calls ph' args ts) = []"
  using assms by (induction ts) (simp_all add: hook_calls_def hook_call_def)

section \<open>Properties: the lifecycle methods\<close>

lemma setup_test_environment_enabled:
  assumes "jenkins self" and "tasks_attr self = Some ts"
    and "base_setup_test_environment env kwargs = Inr ()"
  shows "setup_test_environment env self kwargs =
           (BaseSetup kwargs # fst (dispatch_hook SetupEnv (None, kwargs) ts),
            snd (dispatch_hook SetupEnv (None, kwargs) ts))"
  using assms
  by (simp add: setup_test_environment_def self_tasks_def bind_call_Inr bind_ret)

lemma teardown_test_environment_enabled:
  assumes "jenkins self" and "tasks_attr self = Some ts"
    and "base_teardown_test_environment env kwargs = Inr ()"
  shows "teardown_test_environment env self kwargs =
           (BaseTeardown kwargs # fst (dispatch_hook TeardownEnv (None, kwargs) ts),
            snd (dispatch_hook TeardownEnv (None, kwargs) ts))"
  using assms
  by (simp add: teardown_test_environment_def self_tasks_def bind_call_Inr bind_ret)

lemma setup_test_environment_base_raises:
  assumes "base_setup_test_environment env kwargs = Inl e"
  shows "setup_test_environment env self kwargs = ([BaseSetup kwargs], Inl e)"
  using assms by (simp add: setup_test_environment_def bind_call_Inl)

lemma teardown_test_environment_base_raises:
  assumes "base_teardown_test_environment env kwargs = Inl e"
  shows "teardown_test_environment env self kwargs = ([BaseTeardown kwargs], Inl e)"
  using assms by (simp add: teardown_test_environment_def bind_call_Inl)

lemma setup_test_environment_disabled:
  assumes "\<not> jenkins self"
  shows "setup_test_environment env self kwargs =
           ([BaseSetup kwargs], base_setup_test_environment env kwargs)"
  using assms by (simp add: setup_test_environment_def bind_ret_right call_def)

lemma teardown_test_environment_disabled:
  assumes "\<not> jenkins self"
  shows "teardown_test_environment env self kwargs =
           ([BaseTeardown kwargs], base_teardown_test_environment env kwargs)"
  using assms by (simp add: teardown_test_environment_def bind_ret_right call_def)

lemma run_suite_disabled:
  assumes "\<not> jenkins self"
  shows "run_suite env self suite kwargs =
           ([BaseRunSuite suite kwargs], base_run_suite env suite kwargs)"
  using assms by (simp add: run_suite_def call_def)

text \<open>The suite run in extended mode, up to the outcome of the two dispatch loops.\<close>

lemma run_suite_before_raises:
  assumes "jenkins self" and "tasks_attr self = Some ts"
    and "dispatch_hook BeforeSuite (Some suite, kwargs) ts = (tr, Inl e)"
  shows "run_suite env self suite kwargs = (tr, Inl e)"
  using assms by (simp add: run_suite_def self_tasks_def bind_ret bind_Inl)

lemma run_suite_enabled:
  assumes "jenkins self" and "tasks_attr self = Some ts"
    and "output_dir_attr self = Some output_dir"
    and "dispatch_hook BeforeSuite (Some suite, kwargs) ts = (tr, Inr ())"
    and "TextTestRunner_run env
           \<lparr>cfg_buffer = True, cfg_resultclass = XMLTestResult,
            cfg_verbosity = verbosity self, cfg_failfast = failfast self\<rparr> suite = Inr result"
    and "dump_xml env result output_dir = Inr ()"
  shows "run_suite env self suite kwargs =
           (tr @ [TextTestRunnerRun
                    \<lparr>cfg_buffer = True, cfg_resultclass = XMLTestResult,
                     cfg_verbosity = verbosity self, cfg_failfast = failfast self\<rparr> suite,
                  DumpXml result output_dir]
               @ fst (dispatch_hook AfterSuite (Some suite, kwargs) ts),
            case snd (dispatch_hook AfterSuite (Some suite, kwargs) ts) of
              Inl e \<Rightarrow> Inl e | Inr u \<Rightarrow> Inr result)"
proof (cases "dispatch_hook AfterSuite (Some suite, kwargs) ts")
  case (Pair tr' r)
  show ?thesis
  proof (cases r)
    case (Inl e)
    with Pair assms show ?thesis
      by (simp add: run_suite_def self_tasks_def self_output_dir_def bind_ret bind_Inl bind_Inr
          bind_call_Inr Let_def)
  next
    case (Inr u)
    with Pair assms show ?thesis
      by (simp add: run_suite_def self_tasks_def self_output_dir_def bind_ret bind_Inl bind_Inr
          bind_call_Inr Let_def ret_def)
  qed
qed

section \<open>Properties: extended mode\<close>

lemma proj_runner_simps:
  "jenkins (proj_runner ts)" "tasks_attr (proj_runner ts) = Some ts"
  "output_dir_attr (proj_runner ts) = Some (Some ''reports'')"
  "verbosity (proj_runner ts) = 1" "failfast (proj_runner ts) = False"
  by (simp_all add: proj_runner_def)

lemma proj_env_simps:
  "base_setup_test_environment (proj_env tasks) kwargs = Inr ()"
  "base_teardown_test_environment (proj_env tasks) kwargs = Inr ()"
  "TextTestRunner_run (proj_env tasks) cfg suite = Inr (TestResult (cfg_resultclass cfg) 1)"
  "dump_xml (proj_env tasks) result output_dir = Inr ()"
  "base_run_suite (proj_env tasks) suite kwargs = Inr (TestResult TextTestResult 0)"
  "base_init (proj_env tasks) options = Inr \<lparr>base_verbosity = 1, base_failfast = False\<rparr>"
  "import_module (proj_env tasks) = proj_import"
  "TASKS (proj_env tasks) = tasks"
  "OUTPUT_DIR (proj_env tasks) = ''reports''"
  "django_VERSION (proj_env tasks) = (1, 7)"
  by (simp_all add: proj_env_def)

lemma proj_hook_returns:
  "hook_returns ph args task_a" "hook_returns ph args task_b"
  by (simp_all add: hook_returns_def task_a_def task_b_def returning_hook_def)

lemma proj_hook_calls_ab:
  "hook_calls SetupEnv args [task_a, task_b] = [HookCall SetupEnv ''a'' args]"
  "hook_calls BeforeSuite args [task_a, task_b] = [HookCall BeforeSuite ''a'' args]"
  "hook_calls AfterSuite args [task_a, task_b] =
     [HookCall AfterSuite ''a'' args, HookCall AfterSuite ''b'' args]"
  "hook_calls TeardownEnv args [task_a, task_b] = [HookCall TeardownEnv ''a'' args]"
  by (simp_all add: hook_calls_def hook_call_def defines_hook_def task_a_def task_b_def)

text \<open>
  C1. In extended mode, when the calls of a lifecycle method return, the hook calls of
  each of the four phases are those of the tasks that have the hook of the phase, in the
  order of \<open>self.tasks\<close> (the order of instantiation); a task without the hook is passed
  over and the method returns.
\<close>

theorem hooks_dispatched_in_task_order:
  assumes "jenkins self" and "tasks_attr self = Some ts"
  shows "(base_setup_test_environment env kwargs = Inr () \<and>
          list_all (hook_returns SetupEnv (None, kwargs)) ts \<longrightarrow>
            filter (is_hook_call SetupEnv) (fst (setup_test_environment env self kwargs)) =
              hook_calls SetupEnv (None, kwargs) ts \<and>
            snd (setup_test_environment env self kwargs) = Inr ())
       \<and> (output_dir_attr self = Some output_dir \<and>
          list_all (hook_returns BeforeSuite (Some suite, kwargs)) ts \<and>
          TextTestRunner_run env
            \<lparr>cfg_buffer = True, cfg_resultclass = XMLTestResult,
             cfg_verbosity = verbosity self, cfg_failfast = failfast self\<rparr> suite = Inr result \<and>
          dump_xml env result output_dir = Inr () \<and>
          list_all (hook_returns AfterSuite (Some suite, kwargs)) ts \<longrightarrow>
            filter (is_hook_call BeforeSuite) (fst (run_suite env self suite kwargs)) =
              hook_calls BeforeSuite (Some suite, kwargs) ts \<and>
            filter (is_hook_call AfterSuite) (fst (run_suite env self suite kwargs)) =
              hook_calls AfterSuite (Some suite, kwargs) ts \<and>
            snd (run_suite env self suite kwargs) = Inr result)
       \<and> (base_teardown_test_environment env kwargs = Inr () \<and>
          list_all (hook_returns TeardownEnv (None, kwargs)) ts \<longrightarrow>
            filter (is_hook_call TeardownEnv) (fst (teardown_test_environment env self kwargs)) =
              hook_calls TeardownEnv (None, kwargs) ts \<and>
            snd (teardown_test_environment env self kwargs) = Inr ())"
proof (intro conjI impI)
  assume h: "base_setup_test_environment env kwargs = Inr () \<and>
      list_all (hook_returns SetupEnv (None, kwargs)) ts"
  then have "setup_test_environment env self kwargs =
      (BaseSetup kwargs # hook_calls SetupEnv (None, kwargs) ts, Inr ())"
    using setup_test_environment_enabled [OF assms, of env kwargs]
    by (simp add: dispatch_hook_returns)
  then show
    "filter (is_hook_call SetupEnv) (fst (setup_test_environment env self kwargs)) =
       hook_calls SetupEnv (None, kwargs) ts"
    "snd (setup_test_environment env self kwargs) = Inr ()"
    by (simp_all add: filter_hook_calls_same)
next
  assume h: "base_teardown_test_environment env kwargs = Inr () \<and>
      list_all (hook_returns TeardownEnv (None, kwargs)) ts"
  then have "teardown_test_environment env self kwargs =
      (BaseTeardown kwargs # hook_calls TeardownEnv (None, kwargs) ts, Inr ())"
    using teardown_test_environment_enabled [OF assms, of env kwargs]
    by (simp add: dispatch_hook_returns)
  then show
    "filter (is_hook_call TeardownEnv) (fst (teardown_test_environment env self kwargs)) =
       hook_calls TeardownEnv (None, kwargs) ts"
    "snd (teardown_test_environment env self kwargs) = Inr ()"
    by (simp_all add: filter_hook_calls_same)
next
  let ?cfg = "\<lparr>cfg_buffer = True, cfg_resultclass = XMLTestResult,
      cfg_verbosity = verbosity self, cfg_failfast = failfast self\<rparr>"
  assume h: "output_dir_attr self = Some output_dir \<and>
      list_all (hook_returns BeforeSuite (Some suite, kwargs)) ts \<and>
      TextTestRunner_run env ?cfg suite = Inr result \<and>
      dump_xml env result output_dir = Inr () \<and>
      list_all (hook_returns AfterSuite (Some suite, kwargs)) ts"
  then have before: "dispatch_hook BeforeSuite (Some suite, kwargs) ts =
      (hook_calls BeforeSuite (Some suite, kwargs) ts, Inr ())"
    and after: "dispatch_hook AfterSuite (Some suite, kwargs) ts =
      (hook_calls AfterSuite (Some suite, kwargs) ts, Inr ())"
    by (simp_all add: dispatch_hook_returns)
  from h have od: "output_dir_attr self = Some output_dir"
    and run: "TextTestRunner_run env ?cfg suite = Inr result"
    and dump: "dump_xml env result output_dir = Inr ()"
    by simp_all
  have r: "run_suite env self suite kwargs =
      (hook_calls BeforeSuite (Some suite, kwargs) ts
         @ [TextTestRunnerRun ?cfg suite, DumpXml result output_dir]
         @ hook_calls AfterSuite (Some suite, kwargs) ts, Inr result)"
    using run_suite_enabled [OF assms od before run dump] by (simp add: after)
  show "filter (is_hook_call BeforeSuite) (fst (run_suite env self suite kwargs)) =
      hook_calls BeforeSuite (Some suite, kwargs) ts"
    by (simp add: r filter_hook_calls_same filter_hook_calls_other)
  show "filter (is_hook_call AfterSuite) (fst (run_suite env self suite kwargs)) =
      hook_calls AfterSuite (Some suite, kwargs) ts"
    by (simp add: r filter_hook_calls_same filter_hook_calls_other)
  show "snd (run_suite env self suite kwargs) = Inr result"
    by (simp add: r)
qed

theorem hooks_dispatched_in_task_order_witness:
  "jenkins (proj_runner [task_a, task_b])
   \<and> tasks_attr (proj_runner [task_a, task_b]) = Some [task_a, task_b]
   \<and> output_dir_attr (proj_runner [task_a, task_b]) = Some (Some ''reports'')
   \<and> base_setup_test_environment (proj_env []) proj_kwargs = Inr ()
   \<and> base_teardown_test_environment (proj_env []) proj_kwargs = Inr ()
   \<and> list_all (hook_returns SetupEnv (None, proj_kwargs)) [task_a, task_b]
   \<and> list_all (hook_returns BeforeSuite (Some proj_suite, proj_kwargs)) [task_a, task_b]
   \<and> list_all (hook_returns AfterSuite (Some proj_suite, proj_kwargs)) [task_a, task_b]
   \<and> list_all (hook_returns TeardownEnv (None, proj_kwargs)) [task_a, task_b]
   \<and> filter (is_hook_call SetupEnv)
        (fst (setup_test_environment (proj_env []) (proj_runner [task_a, task_b]) proj_kwargs)) =
       [HookCall SetupEnv ''a'' (None, proj_kwargs)]
   \<and> filter (is_hook_call BeforeSuite)
        (fst (run_suite (proj_env []) (proj_runner [task_a, task_b]) proj_suite proj_kwargs)) =
       [HookCall BeforeSuite ''a'' (Some proj_suite, proj_kwargs)]
   \<and> filter (is_hook_call AfterSuite)
        (fst (run_suite (proj_env []) (proj_runner [task_a, task_b]) proj_suite proj_kwargs)) =
       [HookCall AfterSuite ''a'' (Some proj_suite, proj_kwargs),
        HookCall AfterSuite ''b'' (Some proj_suite, proj_kwargs)]
   \<and> snd (run_suite (proj_env []) (proj_runner [task_a, task_b]) proj_suite proj_kwargs) =
       Inr (TestResult XMLTestResult 1)
   \<and> filter (is_hook_call TeardownEnv)
        (fst (teardown_test_environment (proj_env []) (proj_runner [task_a, task_b]) proj_kwargs)) =
       [HookCall TeardownEnv ''a'' (None, proj_kwargs)]"
proof -
  let ?env = "proj_env []"
  let ?self = "proj_runner [task_a, task_b]"
  have j: "jenkins ?self" and t: "tasks_attr ?self = Some [task_a, task_b]"
    and od: "output_dir_attr ?self = Some (Some ''reports'')"
    by (simp_all add: proj_runner_simps)
  have bs: "base_setup_test_environment ?env proj_kwargs = Inr ()"
    and bt: "base_teardown_test_environment ?env proj_kwargs = Inr ()"
    by (simp_all add: proj_env_simps)
  have hs: "list_all (hook_returns ph args) [task_a, task_b]" for ph args
    by (simp add: proj_hook_returns)
  have run: "TextTestRunner_run ?env
      \<lparr>cfg_buffer = True, cfg_resultclass = XMLTestResult,
       cfg_verbosity = verbosity ?self, cfg_failfast = failfast ?self\<rparr> proj_suite =
      Inr (TestResult XMLTestResult 1)"
    by (simp add: proj_env_simps)
  have dump: "dump_xml ?env (TestResult XMLTestResult 1) (Some ''reports'') = Inr ()"
    by (simp add: proj_env_simps)
  note order = hooks_dispatched_in_task_order [OF j t, where env = ?env and kwargs = proj_kwargs
      and suite = proj_suite and output_dir = "Some ''reports''"
      and result = "TestResult XMLTestResult 1"]
  from order bs hs have c1: "filter (is_hook_call SetupEnv)
      (fst (setup_test_environment ?env ?self proj_kwargs)) =
      hook_calls SetupEnv (None, proj_kwargs) [task_a, task_b]"
    by blast
  from order od hs run dump have c2: "filter (is_hook_call BeforeSuite)
      (fst (run_suite ?env ?self proj_suite proj_kwargs)) =
      hook_calls BeforeSuite (Some proj_suite, proj_kwargs) [task_a, task_b]"
    and c3: "filter (is_hook_call AfterSuite)
      (fst (run_suite ?env ?self proj_suite proj_kwargs)) =
      hook_calls AfterSuite (Some proj_suite, proj_kwargs) [task_a, task_b]"
    and c4: "snd (run_suite ?env ?self proj_suite proj_kwargs) = Inr (TestResult XMLTestResult 1)"
    by blast+
  from order bt hs have c5: "filter (is_hook_call TeardownEnv)
      (fst (teardown_test_environment ?env ?self proj_kwargs)) =
      hook_calls TeardownEnv (None, proj_kwargs) [task_a, task_b]"
    by blast
  show ?thesis
    using j t od bs bt hs c1 c2 c3 c4 c5
    by (simp only: proj_hook_calls_ab simp_thms)
qed

text \<open>
  C2. In extended mode, when every call returns, \<open>run_suite\<close> calls the
  \<open>before_suite_run\<close> hooks of the tasks that have one, in order; runs the suite with a
  \<open>TextTestRunner\<close> built with \<open>buffer=True\<close>, \<open>resultclass=XMLTestResult\<close> and the
  runner's own \<open>verbosity\<close> and \<open>failfast\<close>; calls \<open>dump_xml\<close> of the result with
  the runner's \<open>output_dir\<close>; calls the \<open>after_suite_run\<close> hooks in the same order;
  and returns the result.
\<close>

theorem run_suite_extended_mode:
  assumes "jenkins self" and "tasks_attr self = Some ts"
    and "output_dir_attr self = Some output_dir"
    and "list_all (hook_returns BeforeSuite (Some suite, kwargs)) ts"
    and "TextTestRunner_run env
           \<lparr>cfg_buffer = True, cfg_resultclass = XMLTestResult,
            cfg_verbosity = verbosity self, cfg_failfast = failfast self\<rparr> suite = Inr result"
    and "dump_xml env result output_dir = Inr ()"
    and "list_all (hook_returns AfterSuite (Some suite, kwargs)) ts"
  shows "run_suite env self suite kwargs =
           (hook_calls BeforeSuite (Some suite, kwargs) ts
              @ [TextTestRunnerRun
                   \<lparr>cfg_buffer = True, cfg_resultclass = XMLTestResult,
                    cfg_verbosity = verbosity self, cfg_failfast = failfast self\<rparr> suite,
                 DumpXml result output_dir]
              @ hook_calls AfterSuite (Some suite, kwargs) ts,
            Inr result)"
proof -
  have before: "dispatch_hook BeforeSuite (Some suite, kwargs) ts =
      (hook_calls BeforeSuite (Some suite, kwargs) ts, Inr ())"
    using assms(4) by (rule dispatch_hook_returns)
  have after: "dispatch_hook AfterSuite (Some suite, kwargs) ts =
      (hook_calls AfterSuite (Some suite, kwargs) ts, Inr ())"
    using assms(7) by (rule dispatch_hook_returns)
  show ?thesis
    using run_suite_enabled [OF assms(1) assms(2) assms(3) before assms(5) assms(6)]
    by (simp add: after)
qed

theorem run_suite_extended_mode_witness:
  "jenkins (proj_runner [task_b, task_a])
   \<and> tasks_attr (proj_runner [task_b, task_a]) = Some [task_b, task_a]
   \<and> output_dir_attr (proj_runner [task_b, task_a]) = Some (Some ''reports'')
   \<and> list_all (hook_returns BeforeSuite (Some proj_suite, proj_kwargs)) [task_b, task_a]
   \<and> TextTestRunner_run (proj_env [])
        \<lparr>cfg_buffer = True, cfg_resultclass = XMLTestResult,
         cfg_verbosity = 1, cfg_failfast = False\<rparr> proj_suite = Inr (TestResult XMLTestResult 1)
   \<and> dump_xml (proj_env []) (TestResult XMLTestResult 1) (Some ''reports'') = Inr ()
   \<and> list_all (hook_returns AfterSuite (Some proj_suite, proj_kwargs)) [task_b, task_a]
   \<and> run_suite (proj_env []) (proj_runner [task_b, task_a]) proj_suite proj_kwargs =
       ([HookCall BeforeSuite ''a'' (Some proj_suite, proj_kwargs),
         TextTestRunnerRun
           \<lparr>cfg_buffer = True, cfg_resultclass = XMLTestResult,
            cfg_verbosity = 1, cfg_failfast = False\<rparr> proj_suite,
         DumpXml (TestResult XMLTestResult 1) (Some ''reports''),
         HookCall AfterSuite ''b'' (Some proj_suite, proj_kwargs),
         HookCall AfterSuite ''a'' (Some proj_suite, proj_kwargs)],
        Inr (TestResult XMLTestResult 1))"
proof -
  let ?env = "proj_env []"
  let ?self = "proj_runner [task_b, task_a]"
  let ?cfg = "\<lparr>cfg_buffer = True, cfg_resultclass = XMLTestResult,
      cfg_verbosity = 1, cfg_failfast = False\<rparr>"
  have j: "jenkins ?self" and t: "tasks_attr ?self = Some [task_b, task_a]"
    and od: "output_dir_attr ?self = Some (Some ''reports'')"
    by (simp_all add: proj_runner_simps)
  have hs: "list_all (hook_returns ph args) [task_b, task_a]" for ph args
    by (simp add: proj_hook_returns)
  have run: "TextTestRunner_run ?env ?cfg proj_suite = Inr (TestResult XMLTestResult 1)"
    by (simp add: proj_env_simps)
  then have run': "TextTestRunner_run ?env
      \<lparr>cfg_buffer = True, cfg_resultclass = XMLTestResult,
       cfg_verbosity = verbosity ?self, cfg_failfast = failfast ?self\<rparr> proj_suite =
      Inr (TestResult XMLTestResult 1)"
    by (simp add: proj_runner_simps)
  have dump: "dump_xml ?env (TestResult XMLTestResult 1) (Some ''reports'') = Inr ()"
    by (simp add: proj_env_simps)
  have calls:
    "hook_calls BeforeSuite args [task_b, task_a] = [HookCall BeforeSuite ''a'' args]"
    "hook_calls AfterSuite args [task_b, task_a] =
       [HookCall AfterSuite ''b'' args, HookCall AfterSuite ''a'' args]" for args
    by (simp_all add: hook_calls_def hook_call_def defines_hook_def task_a_def task_b_def)
  have "run_suite ?env ?self proj_suite proj_kwargs =
      ([HookCall BeforeSuite ''a'' (Some proj_suite, proj_kwargs),
        TextTestRunnerRun ?cfg proj_suite,
        DumpXml (TestResult XMLTestResult 1) (Some ''reports''),
        HookCall AfterSuite ''b'' (Some proj_suite, proj_kwargs),
        HookCall AfterSuite ''a'' (Some proj_suite, proj_kwargs)],
       Inr (TestResult XMLTestResult 1))"
    using run_suite_extended_mode [OF j t od hs run' dump hs]
    by (simp add: calls proj_runner_simps)
  with j t od hs run dump show ?thesis
    by (intro conjI)
qed

lemma proj_hook_raises:
  "hook_raises ph args (Raised ''RuntimeError'') task_c"
  "hook_raises AfterSuite args (Raised ''RuntimeError'') task_d"
  "hook_returns SetupEnv args task_d" "hook_returns BeforeSuite args task_d"
  "hook_returns TeardownEnv args task_d"
  by (simp_all add: hook_raises_def hook_returns_def task_c_def task_d_def raising_hook_def)

text \<open>
  C8. In extended mode, let \<open>t\<close> be a task whose hook of a phase raises \<open>e\<close>, the
  hooks of the tasks before it returning. In each of the four phases the method raises
  \<open>e\<close>, and the hook call of \<open>t\<close> is the last call made: no hook of a task after
  \<open>t\<close> is called (and, for \<open>before_suite_run\<close>, the suite is not run).
\<close>

theorem hook_exception_propagates:
  assumes "jenkins self" and "tasks_attr self = Some (pre @ t # post)"
  shows "(base_setup_test_environment env kwargs = Inr () \<and>
          list_all (hook_returns SetupEnv (None, kwargs)) pre \<and>
          hook_raises SetupEnv (None, kwargs) e t \<longrightarrow>
            setup_test_environment env self kwargs =
              (BaseSetup kwargs # hook_calls SetupEnv (None, kwargs) pre
                 @ [hook_call SetupEnv (None, kwargs) t], Inl e))
       \<and> (list_all (hook_returns BeforeSuite (Some suite, kwargs)) pre \<and>
          hook_raises BeforeSuite (Some suite, kwargs) e t \<longrightarrow>
            run_suite env self suite kwargs =
              (hook_calls BeforeSuite (Some suite, kwargs) pre
                 @ [hook_call BeforeSuite (Some suite, kwargs) t], Inl e))
       \<and> (output_dir_attr self = Some output_dir \<and>
          list_all (hook_returns BeforeSuite (Some suite, kwargs)) (pre @ t # post) \<and>
          TextTestRunner_run env
            \<lparr>cfg_buffer = True, cfg_resultclass = XMLTestResult,
             cfg_verbosity = verbosity self, cfg_failfast = failfast self\<rparr> suite = Inr result \<and>
          dump_xml env result output_dir = Inr () \<and>
          list_all (hook_returns AfterSuite (Some suite, kwargs)) pre \<and>
          hook_raises AfterSuite (Some suite, kwargs) e t \<longrightarrow>
            run_suite env self suite kwargs =
              (hook_calls BeforeSuite (Some suite, kwargs) (pre @ t # post)
                 @ [TextTestRunnerRun
                      \<lparr>cfg_buffer = True, cfg_resultclass = XMLTestResult,
                       cfg_verbosity = verbosity self, cfg_failfast = failfast self\<rparr> suite,
                    DumpXml result output_dir]
                 @ hook_calls AfterSuite (Some suite, kwargs) pre
                 @ [hook_call AfterSuite (Some suite, kwargs) t], Inl e))
       \<and> (base_teardown_test_environment env kwargs = Inr () \<and>
          list_all (hook_returns TeardownEnv (None, kwargs)) pre \<and>
          hook_raises TeardownEnv (None, kwargs) e t \<longrightarrow>
            teardown_test_environment env self kwargs =
              (BaseTeardown kwargs # hook_calls TeardownEnv (None, kwargs) pre
                 @ [hook_call TeardownEnv (None, kwargs) t], Inl e))"
proof (intro conjI impI)
  assume h: "base_setup_test_environment env kwargs = Inr () \<and>
      list_all (hook_returns SetupEnv (None, kwargs)) pre \<and>
      hook_raises SetupEnv (None, kwargs) e t"
  then have "dispatch_hook SetupEnv (None, kwargs) (pre @ t # post) =
      (hook_calls SetupEnv (None, kwargs) pre @ [hook_call SetupEnv (None, kwargs) t], Inl e)"
    by (simp add: dispatch_hook_raises del: dispatch_hook.simps)
  then show "setup_test_environment env self kwargs =
      (BaseSetup kwargs # hook_calls SetupEnv (None, kwargs) pre
         @ [hook_call SetupEnv (None, kwargs) t], Inl e)"
    using setup_test_environment_enabled [OF assms, of env kwargs] h by simp
next
  assume h: "base_teardown_test_environment env kwargs = Inr () \<and>
      list_all (hook_returns TeardownEnv (None, kwargs)) pre \<and>
      hook_raises TeardownEnv (None, kwargs) e t"
  then have "dispatch_hook TeardownEnv (None, kwargs) (pre @ t # post) =
      (hook_calls TeardownEnv (None, kwargs) pre @ [hook_call TeardownEnv (None, kwargs) t], Inl e)"
    by (simp add: dispatch_hook_raises del: dispatch_hook.simps)
  then show "teardown_test_environment env self kwargs =
      (BaseTeardown kwargs # hook_calls TeardownEnv (None, kwargs) pre
         @ [hook_call TeardownEnv (None, kwargs) t], Inl e)"
    using teardown_test_environment_enabled [OF assms, of env kwargs] h by simp
next
  assume h: "list_all (hook_returns BeforeSuite (Some suite, kwargs)) pre \<and>
      hook_raises BeforeSuite (Some suite, kwargs) e t"
  then have "dispatch_hook BeforeSuite (Some suite, kwargs) (pre @ t # post) =
      (hook_calls BeforeSuite (Some suite, kwargs) pre
         @ [hook_call BeforeSuite (Some suite, kwargs) t], Inl e)"
    by (simp add: dispatch_hook_raises del: dispatch_hook.simps)
  then show "run_suite env self suite kwargs =
      (hook_calls BeforeSuite (Some suite, kwargs) pre
         @ [hook_call BeforeSuite (Some suite, kwargs) t], Inl e)"
    using assms by (rule run_suite_before_raises [rotated 2])
next
  let ?cfg = "\<lparr>cfg_buffer = True, cfg_resultclass = XMLTestResult,
      cfg_verbosity = verbosity self, cfg_failfast = failfast self\<rparr>"
  assume h: "output_dir_attr self = Some output_dir \<and>
      list_all (hook_returns BeforeSuite (Some suite, kwargs)) (pre @ t # post) \<and>
      TextTestRunner_run env ?cfg suite = Inr result \<and>
      dump_xml env result output_dir = Inr () \<and>
      list_all (hook_returns AfterSuite (Some suite, kwargs)) pre \<and>
      hook_raises AfterSuite (Some suite, kwargs) e t"
  then have od: "output_dir_attr self = Some output_dir"
    and bh: "list_all (hook_returns BeforeSuite (Some suite, kwargs)) (pre @ t # post)"
    and run: "TextTestRunner_run env ?cfg suite = Inr result"
    and dump: "dump_xml env result output_dir = Inr ()"
    and ah: "list_all (hook_returns AfterSuite (Some suite, kwargs)) pre"
    and ar: "hook_raises AfterSuite (Some suite, kwargs) e t"
    by blast+
  have before: "dispatch_hook BeforeSuite (Some suite, kwargs) (pre @ t # post) =
      (hook_calls BeforeSuite (Some suite, kwargs) (pre @ t # post), Inr ())"
    using bh by (rule dispatch_hook_returns)
  have after: "dispatch_hook AfterSuite (Some suite, kwargs) (pre @ t # post) =
      (hook_calls AfterSuite (Some suite, kwargs) pre
         @ [hook_call AfterSuite (Some suite, kwargs) t], Inl e)"
    using ah ar by (rule dispatch_hook_raises)
  show "run_suite env self suite kwargs =
      (hook_calls BeforeSuite (Some suite, kwargs) (pre @ t # post)
         @ [TextTestRunnerRun ?cfg suite, DumpXml result output_dir]
         @ hook_calls AfterSuite (Some suite, kwargs) pre
         @ [hook_call AfterSuite (Some suite, kwargs) t], Inl e)"
    using run_suite_enabled [OF assms od before run dump]
    by (simp add: after del: dispatch_hook.simps)
qed

theorem hook_exception_propagates_witness:
  "jenkins (proj_runner [task_a, task_c, task_b])
   \<and> tasks_attr (proj_runner [task_a, task_c, task_b]) = Some ([task_a] @ task_c # [task_b])
   \<and> base_setup_test_environment (proj_env []) proj_kwargs = Inr ()
   \<and> base_teardown_test_environment (proj_env []) proj_kwargs = Inr ()
   \<and> list_all (hook_returns SetupEnv (None, proj_kwargs)) [task_a]
   \<and> hook_raises SetupEnv (None, proj_kwargs) (Raised ''RuntimeError'') task_c
   \<and> list_all (hook_returns BeforeSuite (Some proj_suite, proj_kwargs)) [task_a]
   \<and> hook_raises BeforeSuite (Some proj_suite, proj_kwargs) (Raised ''RuntimeError'') task_c
   \<and> list_all (hook_returns TeardownEnv (None, proj_kwargs)) [task_a]
   \<and> hook_raises TeardownEnv (None, proj_kwargs) (Raised ''RuntimeError'') task_c
   \<and> setup_test_environment (proj_env []) (proj_runner [task_a, task_c, task_b]) proj_kwargs =
       ([BaseSetup proj_kwargs, HookCall SetupEnv ''a'' (None, proj_kwargs),
         HookCall SetupEnv ''c'' (None, proj_kwargs)], Inl (Raised ''RuntimeError''))
   \<and> run_suite (proj_env []) (proj_runner [task_a, task_c, task_b]) proj_suite proj_kwargs =
       ([HookCall BeforeSuite ''a'' (Some proj_suite, proj_kwargs),
         HookCall BeforeSuite ''c'' (Some proj_suite, proj_kwargs)], Inl (Raised ''RuntimeError''))
   \<and> teardown_test_environment (proj_env []) (proj_runner [task_a, task_c, task_b]) proj_kwargs =
       ([BaseTeardown proj_kwargs, HookCall TeardownEnv ''a'' (None, proj_kwargs),
         HookCall TeardownEnv ''c'' (None, proj_kwargs)], Inl (Raised ''RuntimeError''))
   \<and> jenkins (proj_runner [task_a, task_d, task_b])
   \<and> tasks_attr (proj_runner [task_a, task_d, task_b]) = Some ([task_a] @ task_d # [task_b])
   \<and> output_dir_attr (proj_runner [task_a, task_d, task_b]) = Some (Some ''reports'')
   \<and> list_all (hook_returns BeforeSuite (Some proj_suite, proj_kwargs)) ([task_a] @ task_d # [task_b])
   \<and> TextTestRunner_run (proj_env [])
        \<lparr>cfg_buffer = True, cfg_resultclass = XMLTestResult,
         cfg_verbosity = 1, cfg_failfast = False\<rparr> proj_suite = Inr (TestResult XMLTestResult 1)
   \<and> dump_xml (proj_env []) (TestResult XMLTestResult 1) (Some ''reports'') = Inr ()
   \<and> list_all (hook_returns AfterSuite (Some proj_suite, proj_kwargs)) [task_a]
   \<and> hook_raises AfterSuite (Some proj_suite, proj_kwargs) (Raised ''RuntimeError'') task_d
   \<and> run_suite (proj_env []) (proj_runner [task_a, task_d, task_b]) proj_suite proj_kwargs =
       ([HookCall BeforeSuite ''a'' (Some proj_suite, proj_kwargs),
         TextTestRunnerRun
           \<lparr>cfg_buffer = True, cfg_resultclass = XMLTestResult,
            cfg_verbosity = 1, cfg_failfast = False\<rparr> proj_suite,
         DumpXml (TestResult XMLTestResult 1) (Some ''reports''),
         HookCall AfterSuite ''a'' (Some proj_suite, proj_kwargs),
         HookCall AfterSuite ''d'' (Some proj_suite, proj_kwargs)], Inl (Raised ''RuntimeError''))"
proof -
  let ?env = "proj_env []"
  let ?c = "proj_runner [task_a, task_c, task_b]"
  let ?d = "proj_runner [task_a, task_d, task_b]"
  let ?e = "Raised ''RuntimeError''"
  let ?cfg = "\<lparr>cfg_buffer = True, cfg_resultclass = XMLTestResult,
      cfg_verbosity = 1, cfg_failfast = False\<rparr>"
  have jc: "jenkins ?c" and tc: "tasks_attr ?c = Some ([task_a] @ task_c # [task_b])"
    and jd: "jenkins ?d" and td: "tasks_attr ?d = Some ([task_a] @ task_d # [task_b])"
    and od: "output_dir_attr ?d = Some (Some ''reports'')"
    by (simp_all add: proj_runner_simps)
  have bs: "base_setup_test_environment ?env proj_kwargs = Inr ()"
    and bt: "base_teardown_test_environment ?env proj_kwargs = Inr ()"
    by (simp_all add: proj_env_simps)
  have ha: "list_all (hook_returns ph args) [task_a]" for ph args
    by (simp add: proj_hook_returns)
  have rc: "hook_raises ph args ?e task_c" for ph args
    by (rule proj_hook_raises)
  have hd: "list_all (hook_returns BeforeSuite args) ([task_a] @ task_d # [task_b])" for args
    by (simp add: proj_hook_returns proj_hook_raises)
  have rd: "hook_raises AfterSuite args ?e task_d" for args
    by (rule proj_hook_raises)
  have run: "TextTestRunner_run ?env ?cfg proj_suite = Inr (TestResult XMLTestResult 1)"
    by (simp add: proj_env_simps)
  then have run': "TextTestRunner_run ?env
      \<lparr>cfg_buffer = True, cfg_resultclass = XMLTestResult,
       cfg_verbosity = verbosity ?d, cfg_failfast = failfast ?d\<rparr> proj_suite =
      Inr (TestResult XMLTestResult 1)"
    by (simp add: proj_runner_simps)
  have dump: "dump_xml ?env (TestResult XMLTestResult 1) (Some ''reports'') = Inr ()"
    by (simp add: proj_env_simps)
  have calls_a: "hook_calls ph args [task_a] = [HookCall ph ''a'' args]" for ph args
    by (simp add: hook_calls_def hook_call_def defines_hook_def task_a_def)
  have calls_d: "hook_calls BeforeSuite args [task_a, task_d, task_b] =
      [HookCall BeforeSuite ''a'' args]" for args
    by (simp add: hook_calls_def hook_call_def defines_hook_def task_a_def task_b_def
        task_d_def)
  have name_c: "hook_call ph args task_c = HookCall ph ''c'' args" for ph args
    by (simp add: hook_call_def task_c_def)
  have name_d: "hook_call ph args task_d = HookCall ph ''d'' args" for ph args
    by (simp add: hook_call_def task_d_def)
  note pc = hook_exception_propagates [OF jc tc, where env = ?env and kwargs = proj_kwargs
      and suite = proj_suite and e = ?e]
  note pd = hook_exception_propagates [OF jd td, where env = ?env and kwargs = proj_kwargs
      and suite = proj_suite and e = ?e and output_dir = "Some ''reports''"
      and result = "TestResult XMLTestResult 1"]
  from pc bs ha rc have "setup_test_environment ?env ?c proj_kwargs =
      (BaseSetup proj_kwargs # hook_calls SetupEnv (None, proj_kwargs) [task_a]
         @ [hook_call SetupEnv (None, proj_kwargs) task_c], Inl ?e)"
    by blast
  then have c1: "setup_test_environment ?env ?c proj_kwargs =
      ([BaseSetup proj_kwargs, HookCall SetupEnv ''a'' (None, proj_kwargs),
        HookCall SetupEnv ''c'' (None, proj_kwargs)], Inl ?e)"
    by (simp add: calls_a name_c)
  from pc ha rc have "run_suite ?env ?c proj_suite proj_kwargs =
      (hook_calls BeforeSuite (Some proj_suite, proj_kwargs) [task_a]
         @ [hook_call BeforeSuite (Some proj_suite, proj_kwargs) task_c], Inl ?e)"
    by blast
  then have c2: "run_suite ?env ?c proj_suite proj_kwargs =
      ([HookCall BeforeSuite ''a'' (Some proj_suite, proj_kwargs),
        HookCall BeforeSuite ''c'' (Some proj_suite, proj_kwargs)], Inl ?e)"
    by (simp add: calls_a name_c)
  from pc bt ha rc have "teardown_test_environment ?env ?c proj_kwargs =
      (BaseTeardown proj_kwargs # hook_calls TeardownEnv (None, proj_kwargs) [task_a]
         @ [hook_call TeardownEnv (None, proj_kwargs) task_c], Inl ?e)"
    by blast
  then have c3: "teardown_test_environment ?env ?c proj_kwargs =
      ([BaseTeardown proj_kwargs, HookCall TeardownEnv ''a'' (None, proj_kwargs),
        HookCall TeardownEnv ''c'' (None, proj_kwargs)], Inl ?e)"
    by (simp add: calls_a name_c)
  from pd od hd run' dump ha rd have "run_suite ?env ?d proj_suite proj_kwargs =
      (hook_calls BeforeSuite (Some proj_suite, proj_kwargs) ([task_a] @ task_d # [task_b])
         @ [TextTestRunnerRun
              \<lparr>cfg_buffer = True, cfg_resultclass = XMLTestResult,
               cfg_verbosity = verbosity ?d, cfg_failfast = failfast ?d\<rparr> proj_suite,
            DumpXml (TestResult XMLTestResult 1) (Some ''reports'')]
         @ hook_calls AfterSuite (Some proj_suite, proj_kwargs) [task_a]
         @ [hook_call AfterSuite (Some proj_suite, proj_kwargs) task_d], Inl ?e)"
    by blast
  then have c4: "run_suite ?env ?d proj_suite proj_kwargs =
      ([HookCall BeforeSuite ''a'' (Some proj_suite, proj_kwargs),
        TextTestRunnerRun ?cfg proj_suite,
        DumpXml (TestResult XMLTestResult 1) (Some ''reports''),
        HookCall AfterSuite ''a'' (Some proj_suite, proj_kwargs),
        HookCall AfterSuite ''d'' (Some proj_suite, proj_kwargs)], Inl ?e)"
    by (simp add: calls_a calls_d name_d proj_runner_simps)
  from jc tc bs bt ha rc c1 c2 c3 jd td od hd run dump rd c4 show ?thesis
    by (intro conjI)
qed

section \<open>Properties: construction and disabled mode\<close>

lemma CIRunner_init_disabled:
  "CIRunner_init env False output_dir options =
     (case base_init env options of
        Inl e \<Rightarrow> ([BaseInit options], Inl e)
      | Inr b \<Rightarrow>
          ([BaseInit options],
           Inr \<lparr>jenkins = False, verbosity = base_verbosity b, failfast = base_failfast b,
                output_dir_attr = None, tasks_attr = None\<rparr>))"
  by (cases "base_init env options")
    (simp_all add: CIRunner_init_def bind_call_Inl bind_call_Inr ret_def)

lemma instantiate_tasks_returns:
  assumes "list_all2 (\<lambda>c t. cls_new c output_dir options = Inr t) cs ts"
  shows "instantiate_tasks cs output_dir options acc =
           (map (\<lambda>c. Instantiate (cls_name c) output_dir options) cs, Inr (acc @ ts))"
  using assms
proof (induction cs ts arbitrary: acc rule: list_all2_induct)
  case Nil
  show ?case by (simp add: ret_def)
next
  case (Cons c cs t ts)
  then show ?case
    by (simp add: bind_call_Inr)
qed

text \<open>
  Construction in extended mode: the tasks are instantiated in the order of the
  resolved classes, each with \<open>output_dir\<close> and the options, and \<open>self.tasks\<close> holds
  the instances in that order; \<open>verbosity\<close> and \<open>failfast\<close> are the wrapped runner's.
\<close>

lemma CIRunner_init_enabled:
  assumes "base_init env options = Inr b"
    and "get_tasks env = (imports, Inr cs)"
    and "list_all2 (\<lambda>c t. cls_new c output_dir options = Inr t) cs ts"
  shows "CIRunner_init env True output_dir options =
           (BaseInit options # imports
              @ map (\<lambda>c. Instantiate (cls_name c) output_dir options) cs,
            Inr \<lparr>jenkins = True, verbosity = base_verbosity b, failfast = base_failfast b,
                 output_dir_attr = Some output_dir, tasks_attr = Some ts\<rparr>)"
  using assms(1) assms(2) instantiate_tasks_returns [OF assms(3), of "[]"]
  by (simp add: CIRunner_init_def bind_call_Inr bind_Inr ret_def)

text \<open>
  Were the flag set on a runner without the attribute \<open>tasks\<close>, the read would raise:
  the guard is what keeps the lifecycle methods from the missing attributes.
\<close>

lemma setup_test_environment_missing_tasks:
  assumes "jenkins self" and "tasks_attr self = None"
    and "base_setup_test_environment env kwargs = Inr ()"
  shows "setup_test_environment env self kwargs =
           ([BaseSetup kwargs], Inl (AttributeError ''tasks''))"
  using assms
  by (simp add: setup_test_environment_def self_tasks_def bind_call_Inr bind_Inl)

text \<open>
  C4. A runner constructed with extended mode disabled makes one call, the wrapped
  runner's \<open>__init__\<close>: no task module is imported and no task is instantiated. Each
  lifecycle method of that runner makes one call, the wrapped runner's method of the
  same name with the same arguments, and has its outcome.
\<close>

theorem disabled_mode_delegates:
  "fst (CIRunner_init env False output_dir options) = [BaseInit options]
   \<and> (\<forall>self. snd (CIRunner_init env False output_dir options) = Inr self \<longrightarrow>
        setup_test_environment env self kwargs =
          ([BaseSetup kwargs], base_setup_test_environment env kwargs) \<and>
        run_suite env self suite kwargs =
          ([BaseRunSuite suite kwargs], base_run_suite env suite kwargs) \<and>
        teardown_test_environment env self kwargs =
          ([BaseTeardown kwargs], base_teardown_test_environment env kwargs))"
proof (intro conjI allI impI)
  show "fst (CIRunner_init env False output_dir options) = [BaseInit options]"
    by (simp add: CIRunner_init_disabled split: sum.splits)
next
  fix self
  assume "snd (CIRunner_init env False output_dir options) = Inr self"
  then have off: "\<not> jenkins self"
    by (auto simp: CIRunner_init_disabled split: sum.splits)
  from off show "setup_test_environment env self kwargs =
      ([BaseSetup kwargs], base_setup_test_environment env kwargs)"
    by (rule setup_test_environment_disabled)
  from off show "run_suite env self suite kwargs =
      ([BaseRunSuite suite kwargs], base_run_suite env suite kwargs)"
    by (rule run_suite_disabled)
  from off show "teardown_test_environment env self kwargs =
      ([BaseTeardown kwargs], base_teardown_test_environment env kwargs)"
    by (rule teardown_test_environment_disabled)
qed

theorem disabled_mode_delegates_witness:
  "CIRunner_init (proj_env [''proj.tasks.TaskA'']) False None [] =
     ([BaseInit []],
      Inr \<lparr>jenkins = False, verbosity = 1, failfast = False,
           output_dir_attr = None, tasks_attr = None\<rparr>)
   \<and> setup_test_environment (proj_env [''proj.tasks.TaskA''])
        \<lparr>jenkins = False, verbosity = 1, failfast = False,
         output_dir_attr = None, tasks_attr = None\<rparr> proj_kwargs =
       ([BaseSetup proj_kwargs], Inr ())
   \<and> run_suite (proj_env [''proj.tasks.TaskA''])
        \<lparr>jenkins = False, verbosity = 1, failfast = False,
         output_dir_attr = None, tasks_attr = None\<rparr> proj_suite proj_kwargs =
       ([BaseRunSuite proj_suite proj_kwargs], Inr (TestResult TextTestResult 0))
   \<and> teardown_test_environment (proj_env [''proj.tasks.TaskA''])
        \<lparr>jenkins = False, verbosity = 1, failfast = False,
         output_dir_attr = None, tasks_attr = None\<rparr> proj_kwargs =
       ([BaseTeardown proj_kwargs], Inr ())"
proof -
  let ?env = "proj_env [''proj.tasks.TaskA'']"
  let ?self = "\<lparr>jenkins = False, verbosity = 1, failfast = False,
      output_dir_attr = None, tasks_attr = None\<rparr>"
  have init: "CIRunner_init ?env False None [] = ([BaseInit []], Inr ?self)"
    by (simp add: CIRunner_init_disabled proj_env_simps)
  then have s: "snd (CIRunner_init ?env False None []) = Inr ?self"
    by simp
  note off = disabled_mode_delegates [where env = ?env and output_dir = None
      and options = "[]" and kwargs = proj_kwargs and suite = proj_suite]
  from off s have
    "setup_test_environment ?env ?self proj_kwargs =
       ([BaseSetup proj_kwargs], base_setup_test_environment ?env proj_kwargs)"
    "run_suite ?env ?self proj_suite proj_kwargs =
       ([BaseRunSuite proj_suite proj_kwargs], base_run_suite ?env proj_suite proj_kwargs)"
    "teardown_test_environment ?env ?self proj_kwargs =
       ([BaseTeardown proj_kwargs], base_teardown_test_environment ?env proj_kwargs)"
    by blast+
  then show ?thesis
    using init by (simp only: proj_env_simps simp_thms)
qed

text \<open>
  C5, as the code has it. In extended mode \<open>teardown_test_environment\<close> calls the wrapped
  runner first and the task hooks after it: the wrapped runner's call is not the last.
\<close>

theorem teardown_delegation_not_last:
  "teardown_test_environment (proj_env []) (proj_runner [task_a]) proj_kwargs =
     ([BaseTeardown proj_kwargs, HookCall TeardownEnv ''a'' (None, proj_kwargs)], Inr ())
   \<and> last (fst (teardown_test_environment (proj_env []) (proj_runner [task_a]) proj_kwargs))
       \<noteq> BaseTeardown proj_kwargs"
proof -
  have "teardown_test_environment (proj_env []) (proj_runner [task_a]) proj_kwargs =
      ([BaseTeardown proj_kwargs, HookCall TeardownEnv ''a'' (None, proj_kwargs)], Inr ())"
    by (simp add: teardown_test_environment_def self_tasks_def proj_runner_simps proj_env_simps
        bind_call_Inr bind_Inr task_a_def returning_hook_def ret_def)
  then show ?thesis by simp
qed

text \<open>
  C5, amended. In extended mode, environment setup and environment teardown both call
  the wrapped runner first, with the keyword arguments they were given; when that call
  returns, the hooks of the tasks that have one are called in the order of
  \<open>self.tasks\<close> with the same keyword arguments; when it raises, no hook is called.
\<close>

theorem environment_hooks_follow_delegation:
  assumes "jenkins self" and "tasks_attr self = Some ts"
  shows "(base_setup_test_environment env kwargs = Inr () \<and>
          list_all (hook_returns SetupEnv (None, kwargs)) ts \<longrightarrow>
            setup_test_environment env self kwargs =
              (BaseSetup kwargs # hook_calls SetupEnv (None, kwargs) ts, Inr ()))
       \<and> (base_teardown_test_environment env kwargs = Inr () \<and>
          list_all (hook_returns TeardownEnv (None, kwargs)) ts \<longrightarrow>
            teardown_test_environment env self kwargs =
              (BaseTeardown kwargs # hook_calls TeardownEnv (None, kwargs) ts, Inr ()))
       \<and> (\<forall>e. base_setup_test_environment env kwargs = Inl e \<longrightarrow>
            setup_test_environment env self kwargs = ([BaseSetup kwargs], Inl e))
       \<and> (\<forall>e. base_teardown_test_environment env kwargs = Inl e \<longrightarrow>
            teardown_test_environment env self kwargs = ([BaseTeardown kwargs], Inl e))"
proof (intro conjI impI allI)
  assume "base_setup_test_environment env kwargs = Inr () \<and>
      list_all (hook_returns SetupEnv (None, kwargs)) ts"
  then show "setup_test_environment env self kwargs =
      (BaseSetup kwargs # hook_calls SetupEnv (None, kwargs) ts, Inr ())"
    using setup_test_environment_enabled [OF assms, of env kwargs]
    by (simp add: dispatch_hook_returns)
next
  assume "base_teardown_test_environment env kwargs = Inr () \<and>
      list_all (hook_returns TeardownEnv (None, kwargs)) ts"
  then show "teardown_test_environment env self kwargs =
      (BaseTeardown kwargs # hook_calls TeardownEnv (None, kwargs) ts, Inr ())"
    using teardown_test_environment_enabled [OF assms, of env kwargs]
    by (simp add: dispatch_hook_returns)
next
  fix e
  assume "base_setup_test_environment env kwargs = Inl e"
  then show "setup_test_environment env self kwargs = ([BaseSetup kwargs], Inl e)"
    by (rule setup_test_environment_base_raises)
next
  fix e
  assume "base_teardown_test_environment env kwargs = Inl e"
  then show "teardown_test_environment env self kwargs = ([BaseTeardown kwargs], Inl e)"
    by (rule teardown_test_environment_base_raises)
qed

theorem environment_hooks_follow_delegation_witness:
  "jenkins (proj_runner [task_b, task_a])
   \<and> tasks_attr (proj_runner [task_b, task_a]) = Some [task_b, task_a]
   \<and> base_setup_test_environment (proj_env []) proj_kwargs = Inr ()
   \<and> base_teardown_test_environment (proj_env []) proj_kwargs = Inr ()
   \<and> list_all (hook_returns SetupEnv (None, proj_kwargs)) [task_b, task_a]
   \<and> list_all (hook_returns TeardownEnv (None, proj_kwargs)) [task_b, task_a]
   \<and> setup_test_environment (proj_env []) (proj_runner [task_b, task_a]) proj_kwargs =
       ([BaseSetup proj_kwargs, HookCall SetupEnv ''a'' (None, proj_kwargs)], Inr ())
   \<and> teardown_test_environment (proj_env []) (proj_runner [task_b, task_a]) proj_kwargs =
       ([BaseTeardown proj_kwargs, HookCall TeardownEnv ''a'' (None, proj_kwargs)], Inr ())
   \<and> base_setup_test_environment
        ((proj_env [])\<lparr>base_setup_test_environment := \<lambda>kwargs. Inl (Raised ''OSError'')\<rparr>)
        proj_kwargs = Inl (Raised ''OSError'')
   \<and> setup_test_environment
        ((proj_env [])\<lparr>base_setup_test_environment := \<lambda>kwargs. Inl (Raised ''OSError'')\<rparr>)
        (proj_runner [task_b, task_a]) proj_kwargs =
       ([BaseSetup proj_kwargs], Inl (Raised ''OSError''))
   \<and> base_teardown_test_environment
        ((proj_env [])\<lparr>base_teardown_test_environment := \<lambda>kwargs. Inl (Raised ''OSError'')\<rparr>)
        proj_kwargs = Inl (Raised ''OSError'')
   \<and> teardown_test_environment
        ((proj_env [])\<lparr>base_teardown_test_environment := \<lambda>kwargs. Inl (Raised ''OSError'')\<rparr>)
        (proj_runner [task_b, task_a]) proj_kwargs =
       ([BaseTeardown proj_kwargs], Inl (Raised ''OSError''))"
proof -
  let ?env = "proj_env []"
  let ?env_s = "(proj_env [])\<lparr>base_setup_test_environment := \<lambda>kwargs. Inl (Raised ''OSError'')\<rparr>"
  let ?env_t = "(proj_env [])\<lparr>base_teardown_test_environment := \<lambda>kwargs. Inl (Raised ''OSError'')\<rparr>"
  let ?self = "proj_runner [task_b, task_a]"
  have j: "jenkins ?self" and t: "tasks_attr ?self = Some [task_b, task_a]"
    by (simp_all add: proj_runner_simps)
  have bs: "base_setup_test_environment ?env proj_kwargs = Inr ()"
    and bt: "base_teardown_test_environment ?env proj_kwargs = Inr ()"
    by (simp_all add: proj_env_simps)
  have es: "base_setup_test_environment ?env_s proj_kwargs = Inl (Raised ''OSError'')"
    and et: "base_teardown_test_environment ?env_t proj_kwargs = Inl (Raised ''OSError'')"
    by simp_all
  have hs: "list_all (hook_returns ph args) [task_b, task_a]" for ph args
    by (simp add: proj_hook_returns)
  have calls: "hook_calls SetupEnv args [task_b, task_a] = [HookCall SetupEnv ''a'' args]"
    "hook_calls TeardownEnv args [task_b, task_a] = [HookCall TeardownEnv ''a'' args]" for args
    by (simp_all add: hook_calls_def hook_call_def defines_hook_def task_a_def task_b_def)
  note ok = environment_hooks_follow_delegation [OF j t, where env = ?env and kwargs = proj_kwargs]
  note raise_s = environment_hooks_follow_delegation [OF j t, where env = ?env_s
      and kwargs = proj_kwargs]
  note raise_t = environment_hooks_follow_delegation [OF j t, where env = ?env_t
      and kwargs = proj_kwargs]
  from ok bs hs have "setup_test_environment ?env ?self proj_kwargs =
      (BaseSetup proj_kwargs # hook_calls SetupEnv (None, proj_kwargs) [task_b, task_a], Inr ())"
    by blast
  then have c1: "setup_test_environment ?env ?self proj_kwargs =
      ([BaseSetup proj_kwargs, HookCall SetupEnv ''a'' (None, proj_kwargs)], Inr ())"
    by (simp only: calls)
  from ok bt hs have "teardown_test_environment ?env ?self proj_kwargs =
      (BaseTeardown proj_kwargs # hook_calls TeardownEnv (None, proj_kwargs) [task_b, task_a],
       Inr ())"
    by blast
  then have c2: "teardown_test_environment ?env ?self proj_kwargs =
      ([BaseTeardown proj_kwargs, HookCall TeardownEnv ''a'' (None, proj_kwargs)], Inr ())"
    by (simp only: calls)
  from raise_s es have c3: "setup_test_environment ?env_s ?self proj_kwargs =
      ([BaseSetup proj_kwargs], Inl (Raised ''OSError''))"
    by blast
  from raise_t et have c4: "teardown_test_environment ?env_t ?self proj_kwargs =
      ([BaseTeardown proj_kwargs], Inl (Raised ''OSError''))"
    by blast
  from j t bs bt hs c1 c2 es c3 et c4 show ?thesis
    by (intro conjI)
qed

text \<open>
  C10. A runner constructed with extended mode disabled has neither the attribute
  \<open>tasks\<close> nor the attribute \<open>output_dir\<close>. Its lifecycle methods do not read them:
  their outcome is the same whatever the two attributes are, present or missing, and it
  is the outcome of the wrapped runner's method, so none raises for a missing attribute.
\<close>

theorem disabled_mode_reads_no_task_attribute:
  assumes "snd (CIRunner_init env False output_dir options) = Inr self"
  shows "tasks_attr self = None \<and> output_dir_attr self = None
       \<and> setup_test_environment env (self\<lparr>output_dir_attr := od, tasks_attr := ta\<rparr>) kwargs =
           setup_test_environment env self kwargs
       \<and> run_suite env (self\<lparr>output_dir_attr := od, tasks_attr := ta\<rparr>) suite kwargs =
           run_suite env self suite kwargs
       \<and> teardown_test_environment env (self\<lparr>output_dir_attr := od, tasks_attr := ta\<rparr>) kwargs =
           teardown_test_environment env self kwargs
       \<and> snd (setup_test_environment env self kwargs) = base_setup_test_environment env kwargs
       \<and> snd (run_suite env self suite kwargs) = base_run_suite env suite kwargs
       \<and> snd (teardown_test_environment env self kwargs) =
           base_teardown_test_environment env kwargs"
proof -
  from assms have attrs: "tasks_attr self = None" "output_dir_attr self = None"
    and off: "\<not> jenkins self"
    by (auto simp: CIRunner_init_disabled split: sum.splits)
  let ?self' = "self\<lparr>output_dir_attr := od, tasks_attr := ta\<rparr>"
  from off have off': "\<not> jenkins ?self'"
    by simp
  have "setup_test_environment env ?self' kwargs = setup_test_environment env self kwargs"
    by (simp only: setup_test_environment_disabled [OF off]
        setup_test_environment_disabled [OF off'])
  moreover
  have "run_suite env ?self' suite kwargs = run_suite env self suite kwargs"
    by (simp only: run_suite_disabled [OF off] run_suite_disabled [OF off'])
  moreover
  have "teardown_test_environment env ?self' kwargs = teardown_test_environment env self kwargs"
    by (simp only: teardown_test_environment_disabled [OF off]
        teardown_test_environment_disabled [OF off'])
  moreover
  have "snd (setup_test_environment env self kwargs) = base_setup_test_environment env kwargs"
    by (simp add: setup_test_environment_disabled [OF off])
  moreover
  have "snd (run_suite env self suite kwargs) = base_run_suite env suite kwargs"
    by (simp add: run_suite_disabled [OF off])
  moreover
  have "snd (teardown_test_environment env self kwargs) =
      base_teardown_test_environment env kwargs"
    by (simp add: teardown_test_environment_disabled [OF off])
  ultimately show ?thesis
    using attrs by (intro conjI)
qed

theorem disabled_mode_reads_no_task_attribute_witness:
  "snd (CIRunner_init (proj_env [''proj.tasks.TaskA'']) False (Some ''reports'') []) =
     Inr \<lparr>jenkins = False, verbosity = 1, failfast = False,
          output_dir_attr = None, tasks_attr = None\<rparr>
   \<and> snd (setup_test_environment (proj_env [''proj.tasks.TaskA''])
        \<lparr>jenkins = False, verbosity = 1, failfast = False,
         output_dir_attr = None, tasks_attr = None\<rparr> proj_kwargs) = Inr ()
   \<and> snd (run_suite (proj_env [''proj.tasks.TaskA''])
        \<lparr>jenkins = False, verbosity = 1, failfast = False,
         output_dir_attr = None, tasks_attr = None\<rparr> proj_suite proj_kwargs) =
       Inr (TestResult TextTestResult 0)
   \<and> snd (teardown_test_environment (proj_env [''proj.tasks.TaskA''])
        \<lparr>jenkins = False, verbosity = 1, failfast = False,
         output_dir_attr = None, tasks_attr = None\<rparr> proj_kwargs) = Inr ()"
proof -
  let ?env = "proj_env [''proj.tasks.TaskA'']"
  let ?self = "\<lparr>jenkins = False, verbosity = 1, failfast = False,
      output_dir_attr = None, tasks_attr = None\<rparr>"
  have s: "snd (CIRunner_init ?env False (Some ''reports'') []) = Inr ?self"
    by (simp add: CIRunner_init_disabled proj_env_simps)
  note guarded = disabled_mode_reads_no_task_attribute [OF s, where kwargs = proj_kwargs
      and suite = proj_suite]
  from guarded have
    "snd (setup_test_environment ?env ?self proj_kwargs) =
       base_setup_test_environment ?env proj_kwargs"
    "snd (run_suite ?env ?self proj_suite proj_kwargs) = base_run_suite ?env proj_suite proj_kwargs"
    "snd (teardown_test_environment ?env ?self proj_kwargs) =
       base_teardown_test_environment ?env proj_kwargs"
    by blast+
  then show ?thesis
    using s by (simp only: proj_env_simps simp_thms)
qed

section \<open>Properties: options and arguments\<close>

lemma get_task_options_loop_defined:
  assumes "list_all (\<lambda>cls. cls_option_list cls \<noteq> None) cs"
  shows "get_task_options_loop cs options =
           Inr (options @ concat (map (\<lambda>cls. the (cls_option_list cls)) cs))"
  using assms
  by (induction cs arbitrary: options) auto

lemma get_task_options_loop_undefined:
  assumes "list_all (\<lambda>cls. cls_option_list cls \<noteq> None) pre"
    and "cls_option_list cls = None"
  shows "get_task_options_loop (pre @ cls # post) options =
           Inl (no_attribute (cls_name cls) ''option_list'')"
  using assms
  by (induction pre arbitrary: options) auto

text \<open>
  When every task class has an option list, the legacy option list of the runner is the
  option lists of the task classes, in configuration order, followed by the two flags.
\<close>

lemma CIRunner_option_list_defined:
  assumes "legacy (django_VERSION env)"
    and "get_tasks env = (imports, Inr cs)"
    and "list_all (\<lambda>cls. cls_option_list cls \<noteq> None) cs"
  shows "CIRunner_option_list env =
           Some (imports,
             Inr (concat (map (\<lambda>cls. the (cls_option_list cls)) cs)
                    @ [jenkins_option, output_dir_option (OUTPUT_DIR env)]))"
  using assms(1) assms(2) get_task_options_loop_defined [OF assms(3), of "[]"]
  by (simp add: CIRunner_option_list_def get_task_options_def bind_Inr ret_def)

text \<open>A task class without an option list makes the class body of the runner raise.\<close>

lemma CIRunner_option_list_undefined:
  assumes "legacy (django_VERSION env)"
    and "get_tasks env = (imports, Inr (pre @ cls # post))"
    and "list_all (\<lambda>cls. cls_option_list cls \<noteq> None) pre"
    and "cls_option_list cls = None"
  shows "CIRunner_option_list env =
           Some (imports, Inl (no_attribute (cls_name cls) ''option_list''))"
  using assms(1) assms(2) get_task_options_loop_undefined [OF assms(3) assms(4), of post "[]"]
  by (simp add: CIRunner_option_list_def get_task_options_def bind_Inr bind_Inl)

text \<open>A task class without \<open>add_arguments\<close> is passed over by \<open>add_arguments\<close>.\<close>

lemma add_task_arguments_skips:
  assumes "cls_add_arguments task_cls = None"
  shows "add_task_arguments (task_cls # rest) parser = add_task_arguments rest parser"
  using assms by simp

lemma proj_get_tasks_AB:
  "get_tasks (proj_env [''proj.tasks.TaskA'', ''proj.tasks.TaskB'']) =
     ([Import ''proj.tasks'', Import ''proj.tasks''], Inr [TaskA, TaskB])"
proof -
  have r: "list_all (resolves proj_import) [''proj.tasks.TaskA'', ''proj.tasks.TaskB'']"
    by (simp add: resolves_def TaskA_resolves TaskB_resolves)
  have i: "import_of ''proj.tasks.TaskA'' = Import ''proj.tasks''"
    "import_of ''proj.tasks.TaskB'' = Import ''proj.tasks''"
    by (simp_all add: import_of_def rsplit1_def)
  show ?thesis
    using get_tasks_loop_all_resolved [OF r, of "[]"]
    by (simp add: get_tasks_def proj_env_simps i TaskA_resolves TaskB_resolves
        del: get_tasks_loop.simps)
qed

text \<open>
  C9, at a task class without an option list. With Django 1.7 and the tasks \<open>TaskA\<close>
  (which has an option list) and \<open>TaskB\<close> (which has none), computing
  \<open>CIRunner.option_list\<close> raises \<open>AttributeError\<close>: \<open>TaskB\<close> is not accepted. The
  argument-parser path of the same class accepts \<open>TaskB\<close>, which has no
  \<open>add_arguments\<close> either.
\<close>

theorem option_list_requires_task_option_list:
  "CIRunner_option_list (proj_env [''proj.tasks.TaskA'', ''proj.tasks.TaskB'']) =
     Some ([Import ''proj.tasks'', Import ''proj.tasks''],
           Inl (AttributeError
                  (''type object '' @ sq @ ''TaskB'' @ sq @ '' has no attribute '' @ sq
                     @ ''option_list'' @ sq)))
   \<and> CIRunner_add_arguments (proj_env [''proj.tasks.TaskA'', ''proj.tasks.TaskB'']) [] =
       ([Import ''proj.tasks'', Import ''proj.tasks''],
        Inr [coverage_option, jenkins_option, output_dir_option ''reports''])"
proof -
  let ?env = "proj_env [''proj.tasks.TaskA'', ''proj.tasks.TaskB'']"
  have v: "legacy (django_VERSION ?env)"
    by (simp add: legacy_def proj_env_simps)
  have a: "list_all (\<lambda>cls. cls_option_list cls \<noteq> None) [TaskA]"
    by (simp add: TaskA_def)
  have b: "cls_option_list TaskB = None" "cls_name TaskB = ''TaskB''"
    "cls_add_arguments TaskB = None"
    by (simp_all add: TaskB_def)
  have g: "get_tasks ?env =
      ([Import ''proj.tasks'', Import ''proj.tasks''], Inr ([TaskA] @ TaskB # []))"
    by (simp add: proj_get_tasks_AB)
  have "CIRunner_option_list ?env =
      Some ([Import ''proj.tasks'', Import ''proj.tasks''],
            Inl (no_attribute (cls_name TaskB) ''option_list''))"
    using v g a b(1) by (rule CIRunner_option_list_undefined)
  then have legacy_path: "CIRunner_option_list ?env =
      Some ([Import ''proj.tasks'', Import ''proj.tasks''],
            Inl (AttributeError
                   (''type object '' @ sq @ ''TaskB'' @ sq @ '' has no attribute '' @ sq
                      @ ''option_list'' @ sq)))"
    by (simp only: b(2) no_attribute_def)
  have added: "add_task_arguments [TaskA, TaskB] [] = Inr [coverage_option]"
    by (simp add: TaskA_def b(3))
  have parser_path: "CIRunner_add_arguments ?env [] =
      ([Import ''proj.tasks'', Import ''proj.tasks''],
       Inr [coverage_option, jenkins_option, output_dir_option ''reports''])"
    by (simp add: CIRunner_add_arguments_def proj_get_tasks_AB bind_Inr ret_def proj_env_simps
        added del: add_task_arguments.simps)
  from legacy_path parser_path show ?thesis
    by (rule conjI)
qed

end
